theory Spec2Isabelle
  imports Complex_Main "HOL-Library.Multiset"
begin

section \<open>Conventions of the embedding\<close>

text \<open>
  The TypeScript sources are embedded function by function. A mutable object is a record
  that every method takes and returns; a method that returns a value returns it paired
  with the updated object. A thrown exception is the \<open>Inl\<close> side of a sum.

  Every call of \<^verbatim>\<open>Date.now()\<close> is an explicit argument (milliseconds, an \<open>int\<close>). A
  synchronous method body is given one reading, since its statements run without an
  intervening \<^verbatim>\<open>await\<close>; an \<^verbatim>\<open>async\<close> function is given one reading for each
  stretch between awaits in which it looks at the clock.

  JavaScript numbers that only ever hold counters are \<open>nat\<close>. The failure rate and the
  TTL seconds are exact rationals; the rate limiter's numbers are finite rationals,
  infinities or NaN. The rounding of finite IEEE doubles is not represented anywhere.
\<close>

datatype error =
    Error string
  | ProviderUnavailableError string
  | ProviderError string string error

section \<open>Circuit breaker (infrastructure/resilience/circuit-breaker.ts)\<close>

datatype CircuitState = CLOSED | OPEN | HALF_OPEN

record CircuitBreakerConfig =
  failureThreshold :: rat
  minimumRequests :: int
  resetTimeout :: int
  successThreshold :: "nat option"

record CircuitBreaker =
  state :: CircuitState
  failureCount :: nat
  successCount :: nat
  requestCount :: nat
  lastFailureTime :: int
  nextAttemptTime :: int
  config :: CircuitBreakerConfig

text \<open>The constructor validates the threshold and starts CLOSED with all counters 0.\<close>

definition newCircuitBreaker :: "CircuitBreakerConfig \<Rightarrow> error + CircuitBreaker" where
  "newCircuitBreaker cfg =
     (if failureThreshold cfg < 0 \<or> failureThreshold cfg > 100
      then Inl (Error ''Failure threshold must be between 0 and 100'')
      else Inr \<lparr> state = CLOSED, failureCount = 0, successCount = 0, requestCount = 0,
                 lastFailureTime = 0, nextAttemptTime = 0, config = cfg \<rparr>)"

definition transitionToOpen :: "int \<Rightarrow> CircuitBreaker \<Rightarrow> CircuitBreaker" where
  "transitionToOpen now cb =
     cb\<lparr> state := OPEN, nextAttemptTime := now + resetTimeout (config cb) \<rparr>"

definition transitionToHalfOpen :: "CircuitBreaker \<Rightarrow> CircuitBreaker" where
  "transitionToHalfOpen cb = cb\<lparr> state := HALF_OPEN, successCount := 0 \<rparr>"

definition transitionToClosed :: "CircuitBreaker \<Rightarrow> CircuitBreaker" where
  "transitionToClosed cb =
     cb\<lparr> state := CLOSED, failureCount := 0, successCount := 0, requestCount := 0 \<rparr>"

definition allowRequest :: "int \<Rightarrow> CircuitBreaker \<Rightarrow> bool \<times> CircuitBreaker" where
  "allowRequest now cb =
     (if state cb = CLOSED then (True, cb)
      else if state cb = OPEN then
        (if now \<ge> nextAttemptTime cb then (True, transitionToHalfOpen cb)
         else (False, cb))
      else (True, cb))"

text \<open>
  \<^verbatim>\<open>this.config.successThreshold || 1\<close>: an absent or zero threshold counts as 1.
\<close>

definition effectiveSuccessThreshold :: "CircuitBreakerConfig \<Rightarrow> nat" where
  "effectiveSuccessThreshold cfg =
     (case successThreshold cfg of None \<Rightarrow> 1 | Some n \<Rightarrow> (if n = 0 then 1 else n))"

definition recordSuccess :: "CircuitBreaker \<Rightarrow> CircuitBreaker" where
  "recordSuccess cb0 =
     (let cb = cb0\<lparr> requestCount := requestCount cb0 + 1 \<rparr> in
      if state cb = HALF_OPEN then
        (let cb1 = cb\<lparr> successCount := successCount cb + 1 \<rparr> in
         if successCount cb1 \<ge> effectiveSuccessThreshold (config cb1)
         then transitionToClosed cb1 else cb1)
      else cb\<lparr> failureCount := 0 \<rparr>)"

text \<open>
  The rate as an exact fraction. The code's two roundings can move a double just below
  the exact value (29 failures in 50 requests give 57.99999999999999, not 58); the rates
  that the properties below evaluate (0, 20, 40, 60, 80 and 100 against 50) are far from
  their threshold.
\<close>

definition failureRate :: "CircuitBreaker \<Rightarrow> rat" where
  "failureRate cb = (of_nat (failureCount cb) / of_nat (requestCount cb)) * 100"

definition recordFailure :: "int \<Rightarrow> CircuitBreaker \<Rightarrow> CircuitBreaker" where
  "recordFailure now cb0 =
     (let cb = cb0\<lparr> failureCount := failureCount cb0 + 1,
                    requestCount := requestCount cb0 + 1,
                    lastFailureTime := now \<rparr> in
      if state cb = HALF_OPEN then transitionToOpen now cb
      else if of_nat (requestCount cb) \<ge> minimumRequests (config cb) then
        (if failureRate cb \<ge> failureThreshold (config cb)
         then transitionToOpen now cb else cb)
      else cb)"

text \<open>A recorded request outcome, with the clock reading of the call.\<close>

datatype record_call = RecordSuccess int | RecordFailure int

fun apply_call :: "CircuitBreaker \<Rightarrow> record_call \<Rightarrow> CircuitBreaker" where
  "apply_call cb (RecordSuccess now) = recordSuccess cb"
| "apply_call cb (RecordFailure now) = recordFailure now cb"

definition record_all :: "record_call list \<Rightarrow> CircuitBreaker \<Rightarrow> CircuitBreaker" where
  "record_all calls cb = foldl apply_call cb calls"

fun is_failure :: "record_call \<Rightarrow> bool" where
  "is_failure (RecordFailure now) = True"
| "is_failure (RecordSuccess now) = False"

text \<open>Repeated admission checks at the given clock readings; the answers in order.\<close>

fun allow_all :: "int list \<Rightarrow> CircuitBreaker \<Rightarrow> bool list \<times> CircuitBreaker" where
  "allow_all [] cb = ([], cb)"
| "allow_all (t # ts) cb =
     (let (b, cb1) = allowRequest t cb; (bs, cb2) = allow_all ts cb1 in (b # bs, cb2))"

text \<open>The breaker configuration that the ESPN provider passes by default.\<close>

definition espnBreakerConfig :: CircuitBreakerConfig where
  "espnBreakerConfig =
     \<lparr> failureThreshold = 50, minimumRequests = 5, resetTimeout = 60000,
       successThreshold = None \<rparr>"

text \<open>
  The configuration with which the server's container (\<open>createContainer\<close>) builds the
  provider when no environment variable overrides a default.
\<close>

definition serverBreakerConfig :: CircuitBreakerConfig where
  "serverBreakerConfig =
     \<lparr> failureThreshold = 50, minimumRequests = 10, resetTimeout = 60000,
       successThreshold = Some 3 \<rparr>"

definition tenFailures :: "record_call list" where
  "tenFailures = map RecordFailure [1, 2, 3, 4, 5, 6, 7, 8, 9, 10]"

section \<open>Exceptions: try and catch\<close>

text \<open>
  A computation is a result paired with the state it leaves. \<open>try_catch\<close> runs the
  handler on the state left by a body that threw; a body that returned is passed on.
\<close>

definition try_catch ::
  "(error + 'a) \<times> 's \<Rightarrow> (error \<Rightarrow> 's \<Rightarrow> (error + 'a) \<times> 's) \<Rightarrow> (error + 'a) \<times> 's" where
  "try_catch body handler =
     (case fst body of Inl e \<Rightarrow> handler e (snd body) | Inr v \<Rightarrow> body)"

section \<open>JavaScript numbers in the rate limiter\<close>

text \<open>
  The limiter divides and multiplies numbers that come from its configuration, and a
  double can be infinite or NaN. Here a number is a finite value (an exact rational), one
  of the infinities, or NaN. An arithmetic result whose magnitude reaches
  \<open>2^1024 - 2^970\<close>, the point from which round-to-nearest gives an infinity, is that
  infinity. What is not represented: the rounding of finite results, and the sign of
  zero (a zero divisor is taken as \<open>+0\<close>).
\<close>

datatype jsnum = Fin rat | PosInf | NegInf | NaN

definition overflowBound :: rat where
  "overflowBound = 2 ^ 970 * (2 ^ 54 - 1)"

definition jsRound :: "rat \<Rightarrow> jsnum" where
  "jsRound q =
     (if q \<ge> overflowBound then PosInf else if q \<le> - overflowBound then NegInf else Fin q)"

fun jsNeg :: "jsnum \<Rightarrow> jsnum" where
  "jsNeg (Fin a) = Fin (- a)"
| "jsNeg PosInf = NegInf"
| "jsNeg NegInf = PosInf"
| "jsNeg NaN = NaN"

fun jsAdd :: "jsnum \<Rightarrow> jsnum \<Rightarrow> jsnum" where
  "jsAdd (Fin a) (Fin b) = jsRound (a + b)"
| "jsAdd (Fin a) PosInf = PosInf"
| "jsAdd (Fin a) NegInf = NegInf"
| "jsAdd PosInf (Fin b) = PosInf"
| "jsAdd PosInf PosInf = PosInf"
| "jsAdd PosInf NegInf = NaN"
| "jsAdd NegInf (Fin b) = NegInf"
| "jsAdd NegInf PosInf = NaN"
| "jsAdd NegInf NegInf = NegInf"
| "jsAdd NaN y = NaN"
| "jsAdd x NaN = NaN"

definition jsSub :: "jsnum \<Rightarrow> jsnum \<Rightarrow> jsnum" where
  "jsSub x y = jsAdd x (jsNeg y)"

fun jsMul :: "jsnum \<Rightarrow> jsnum \<Rightarrow> jsnum" where
  "jsMul (Fin a) (Fin b) = jsRound (a * b)"
| "jsMul (Fin a) PosInf = (if a = 0 then NaN else if a > 0 then PosInf else NegInf)"
| "jsMul (Fin a) NegInf = (if a = 0 then NaN else if a > 0 then NegInf else PosInf)"
| "jsMul PosInf (Fin b) = (if b = 0 then NaN else if b > 0 then PosInf else NegInf)"
| "jsMul NegInf (Fin b) = (if b = 0 then NaN else if b > 0 then NegInf else PosInf)"
| "jsMul PosInf PosInf = PosInf"
| "jsMul PosInf NegInf = NegInf"
| "jsMul NegInf PosInf = NegInf"
| "jsMul NegInf NegInf = PosInf"
| "jsMul NaN y = NaN"
| "jsMul x NaN = NaN"

fun jsDiv :: "jsnum \<Rightarrow> jsnum \<Rightarrow> jsnum" where
  "jsDiv (Fin a) (Fin b) =
     (if b = 0 then (if a = 0 then NaN else if a > 0 then PosInf else NegInf)
      else jsRound (a / b))"
| "jsDiv (Fin a) PosInf = Fin 0"
| "jsDiv (Fin a) NegInf = Fin 0"
| "jsDiv PosInf (Fin b) = (if b \<ge> 0 then PosInf else NegInf)"
| "jsDiv NegInf (Fin b) = (if b \<ge> 0 then NegInf else PosInf)"
| "jsDiv PosInf PosInf = NaN"
| "jsDiv PosInf NegInf = NaN"
| "jsDiv NegInf PosInf = NaN"
| "jsDiv NegInf NegInf = NaN"
| "jsDiv NaN y = NaN"
| "jsDiv x NaN = NaN"

text \<open>\<^verbatim>\<open>Math.min\<close>: NaN when an argument is NaN.\<close>

fun jsMin :: "jsnum \<Rightarrow> jsnum \<Rightarrow> jsnum" where
  "jsMin (Fin a) (Fin b) = Fin (min a b)"
| "jsMin (Fin a) PosInf = Fin a"
| "jsMin (Fin a) NegInf = NegInf"
| "jsMin PosInf (Fin b) = Fin b"
| "jsMin PosInf PosInf = PosInf"
| "jsMin PosInf NegInf = NegInf"
| "jsMin NegInf (Fin b) = NegInf"
| "jsMin NegInf PosInf = NegInf"
| "jsMin NegInf NegInf = NegInf"
| "jsMin NaN y = NaN"
| "jsMin x NaN = NaN"

text \<open>\<^verbatim>\<open>x <= y\<close> and \<^verbatim>\<open>x >= y\<close>: false when an operand is NaN.\<close>

fun jsLe :: "jsnum \<Rightarrow> jsnum \<Rightarrow> bool" where
  "jsLe (Fin a) (Fin b) = (a \<le> b)"
| "jsLe (Fin a) PosInf = True"
| "jsLe (Fin a) NegInf = False"
| "jsLe PosInf (Fin b) = False"
| "jsLe PosInf PosInf = True"
| "jsLe PosInf NegInf = False"
| "jsLe NegInf (Fin b) = True"
| "jsLe NegInf PosInf = True"
| "jsLe NegInf NegInf = True"
| "jsLe NaN y = False"
| "jsLe x NaN = False"

definition jsGe :: "jsnum \<Rightarrow> jsnum \<Rightarrow> bool" where
  "jsGe x y = jsLe y x"

text \<open>\<^verbatim>\<open>Math.floor\<close>\<close>

fun jsFloor :: "jsnum \<Rightarrow> jsnum" where
  "jsFloor (Fin a) = Fin (of_int \<lfloor>a\<rfloor>)"
| "jsFloor PosInf = PosInf"
| "jsFloor NegInf = NegInf"
| "jsFloor NaN = NaN"

section \<open>Rate limiter (class RateLimiter, infrastructure/resilience/rate-limiter.ts)\<close>

record RateLimiterConfig =
  maxRequests :: jsnum
  windowMs :: jsnum

record RateLimiter =
  tokens :: jsnum
  lastRefill :: int
  maxTokens :: jsnum
  refillRate :: jsnum

text \<open>The constructor performs no validation.\<close>

definition newRateLimiter :: "RateLimiterConfig \<Rightarrow> int \<Rightarrow> RateLimiter" where
  "newRateLimiter cfg now =
     \<lparr> tokens = maxRequests cfg, lastRefill = now, maxTokens = maxRequests cfg,
       refillRate = jsDiv (maxRequests cfg) (windowMs cfg) \<rparr>"

definition refill :: "int \<Rightarrow> RateLimiter \<Rightarrow> RateLimiter" where
  "refill now rl =
     (let timePassed = now - lastRefill rl;
          tokensToAdd = jsMul (Fin (of_int timePassed)) (refillRate rl)
      in rl\<lparr> tokens := jsMin (maxTokens rl) (jsAdd (tokens rl) tokensToAdd),
             lastRefill := now \<rparr>)"

definition tryAcquire :: "int \<Rightarrow> RateLimiter \<Rightarrow> bool \<times> RateLimiter" where
  "tryAcquire now rl0 =
     (let rl = refill now rl0 in
      if jsGe (tokens rl) (Fin 1) then (True, rl\<lparr> tokens := jsSub (tokens rl) (Fin 1) \<rparr>)
      else (False, rl))"

definition getAvailableTokens :: "int \<Rightarrow> RateLimiter \<Rightarrow> jsnum \<times> RateLimiter" where
  "getAvailableTokens now rl0 = (let rl = refill now rl0 in (jsFloor (tokens rl), rl))"

definition reset :: "int \<Rightarrow> RateLimiter \<Rightarrow> RateLimiter" where
  "reset now rl = rl\<lparr> tokens := maxTokens rl, lastRefill := now \<rparr>"

text \<open>
  \<open>acquire\<close> polls \<open>tryAcquire\<close> and sleeps between attempts. Each round of the loop
  reads the clock twice: inside \<open>tryAcquire\<close> and for the timeout check. The rounds'
  readings are the list argument; the sleep is the gap between one round's readings and
  the next. When the list is used up and the loop has neither returned nor thrown, the
  result is \<open>None\<close>: the caller is still waiting.
\<close>

fun acquire_loop ::
  "jsnum \<Rightarrow> int \<Rightarrow> (int \<times> int) list \<Rightarrow> RateLimiter \<Rightarrow> (error + unit) option \<times> RateLimiter" where
  "acquire_loop timeoutMs startTime [] rl = (None, rl)"
| "acquire_loop timeoutMs startTime ((tTry, tCheck) # rounds) rl0 =
     (let (ok, rl) = tryAcquire tTry rl0 in
      if ok then (Some (Inr ()), rl)
      else if jsGe (Fin (of_int (tCheck - startTime))) timeoutMs
        then (Some (Inl (Error ''Rate limiter timeout: could not acquire token'')), rl)
      else acquire_loop timeoutMs startTime rounds rl)"

definition acquire ::
  "jsnum \<Rightarrow> int \<Rightarrow> (int \<times> int) list \<Rightarrow> RateLimiter \<Rightarrow> (error + unit) option \<times> RateLimiter" where
  "acquire timeoutMs startTime rounds rl = acquire_loop timeoutMs startTime rounds rl"

text \<open>One public operation of the limiter, with the clock readings it consumes.\<close>

datatype limiter_op =
    TryAcquire int
  | Acquire jsnum int "(int \<times> int) list"
  | GetAvailableTokens int
  | Reset int

fun apply_op :: "RateLimiter \<Rightarrow> limiter_op \<Rightarrow> RateLimiter" where
  "apply_op rl (TryAcquire now) = snd (tryAcquire now rl)"
| "apply_op rl (Acquire timeoutMs startTime rounds) = snd (acquire timeoutMs startTime rounds rl)"
| "apply_op rl (GetAvailableTokens now) = snd (getAvailableTokens now rl)"
| "apply_op rl (Reset now) = reset now rl"

fun round_readings :: "(int \<times> int) list \<Rightarrow> int list" where
  "round_readings [] = []"
| "round_readings ((tTry, tCheck) # rounds) = tTry # tCheck # round_readings rounds"

fun op_readings :: "limiter_op \<Rightarrow> int list" where
  "op_readings (TryAcquire now) = [now]"
| "op_readings (Acquire timeoutMs startTime rounds) = startTime # round_readings rounds"
| "op_readings (GetAvailableTokens now) = [now]"
| "op_readings (Reset now) = [now]"

definition run_ops :: "limiter_op list \<Rightarrow> RateLimiter \<Rightarrow> RateLimiter" where
  "run_ops ops rl = foldl apply_op rl ops"

text \<open>
  The clock is monotone over a run that starts with the constructor's reading \<open>t0\<close>:
  the readings, in the order in which they are taken, never decrease.
\<close>

definition monotone_clock :: "int \<Rightarrow> limiter_op list \<Rightarrow> bool" where
  "monotone_clock t0 ops = sorted (t0 # concat (map op_readings ops))"

text \<open>\<^verbatim>\<open>0 <= tokens && tokens <= maxTokens\<close>, as JavaScript compares.\<close>

definition tokens_in_bounds :: "RateLimiter \<Rightarrow> bool" where
  "tokens_in_bounds rl = (jsLe (Fin 0) (tokens rl) \<and> jsLe (tokens rl) (maxTokens rl))"

text \<open>
  What every step keeps: the budget, the capacity and the rate are finite, the budget
  lies between 0 and the capacity, the capacity is below the overflow bound, and the rate
  is not negative.
\<close>

definition limiter_inv :: "RateLimiter \<Rightarrow> bool" where
  "limiter_inv rl =
     (case tokens rl of
        Fin t \<Rightarrow>
          (case maxTokens rl of
             Fin mx \<Rightarrow>
               (case refillRate rl of
                  Fin r \<Rightarrow> 0 \<le> t \<and> t \<le> mx \<and> mx < overflowBound \<and> 0 \<le> r
                | PosInf \<Rightarrow> False | NegInf \<Rightarrow> False | NaN \<Rightarrow> False)
           | PosInf \<Rightarrow> False | NegInf \<Rightarrow> False | NaN \<Rightarrow> False)
      | PosInf \<Rightarrow> False | NegInf \<Rightarrow> False | NaN \<Rightarrow> False)"

text \<open>The limiter configuration that the ESPN provider passes by default.\<close>

definition espnLimiterConfig :: RateLimiterConfig where
  "espnLimiterConfig = \<lparr> maxRequests = Fin 100, windowMs = Fin 60000 \<rparr>"

section \<open>Provider base class (infrastructure/providers/base/sports-data-provider.ts)\<close>

datatype metric =
    RequestMetric string string int bool
  | ErrorMetric string string string

datatype log_entry = LogDebug string | LogInfo string | LogWarn string | LogError string error

record SportsDataProvider =
  providerName :: string
  rateLimiter :: RateLimiter
  circuitBreaker :: CircuitBreaker
  metricsLog :: "metric list"
  loggerLog :: "log_entry list"

text \<open>
  The clock readings of one \<open>executeRequest\<close>: \<open>t_start\<close> for \<open>startTime\<close> and the
  admission check that follows it, \<open>t_acquire\<close> and \<open>t_rounds\<close> for the limiter's
  \<open>acquire\<close>, and \<open>t_end\<close> for whatever runs after the last await (the duration, and
  \<open>recordFailure\<close> in the catch block).
\<close>

record exec_clock =
  t_start :: int
  t_acquire :: int
  t_rounds :: "(int \<times> int) list"
  t_end :: int

definition logTo :: "log_entry \<Rightarrow> SportsDataProvider \<Rightarrow> SportsDataProvider" where
  "logTo e p = p\<lparr> loggerLog := loggerLog p @ [e] \<rparr>"

definition recordMetric :: "metric \<Rightarrow> SportsDataProvider \<Rightarrow> SportsDataProvider" where
  "recordMetric m p = p\<lparr> metricsLog := metricsLog p @ [m] \<rparr>"

text \<open>\<^verbatim>\<open>error.constructor.name\<close> of the three exception classes.\<close>

fun constructorName :: "error \<Rightarrow> string" where
  "constructorName (Error msg) = ''Error''"
| "constructorName (ProviderUnavailableError msg) = ''ProviderUnavailableError''"
| "constructorName (ProviderError name operation cause) = ''ProviderError''"

text \<open>
  The body of the \<^verbatim>\<open>try\<close> block. \<open>request\<close> is the request function: awaited on the
  provider (it may write to the provider's logger), it returns or throws. \<open>None\<close> means
  that the limiter's \<open>acquire\<close> has not come back yet.
\<close>

type_synonym 'a request_fn = "SportsDataProvider \<Rightarrow> (error + 'a) \<times> SportsDataProvider"

definition executeRequest_body ::
  "exec_clock \<Rightarrow> string \<Rightarrow> 'a request_fn \<Rightarrow> SportsDataProvider
     \<Rightarrow> ((error + 'a) \<times> SportsDataProvider) option" where
  "executeRequest_body clk operation request p0 =
     (let (allowed, cb) = allowRequest (t_start clk) (circuitBreaker p0);
          p1 = p0\<lparr> circuitBreaker := cb \<rparr>
      in if \<not> allowed then
           Some (Inl (ProviderUnavailableError (providerName p1 @ '' circuit breaker is open'')),
                 logTo (LogWarn ''Circuit breaker open'') p1)
         else
           (let p2 = logTo (LogDebug ''Acquiring rate limit token'') p1;
                (acquired, rl) = acquire (Fin 5000) (t_acquire clk) (t_rounds clk) (rateLimiter p2);
                p3 = p2\<lparr> rateLimiter := rl \<rparr>
            in case acquired of
                 None \<Rightarrow> None
               | Some (Inl e) \<Rightarrow> Some (Inl e, p3)
               | Some (Inr u) \<Rightarrow>
                   (let (outcome, p4) = request (logTo (LogDebug ''Executing request'') p3) in
                    case outcome of
                      Inl e \<Rightarrow> Some (Inl e, p4)
                    | Inr result \<Rightarrow>
                        (let duration = t_end clk - t_start clk;
                             p5 = p4\<lparr> circuitBreaker := recordSuccess (circuitBreaker p4) \<rparr>;
                             p6 = recordMetric (RequestMetric (providerName p5) operation duration True) p5;
                             p7 = logTo (LogInfo ''Request successful'') p6
                         in Some (Inr result, p7)))))"

text \<open>The \<^verbatim>\<open>catch\<close> block: it handles every exception thrown inside the try block.\<close>

definition executeRequest_catch ::
  "exec_clock \<Rightarrow> string \<Rightarrow> error \<Rightarrow> SportsDataProvider \<Rightarrow> (error + 'a) \<times> SportsDataProvider" where
  "executeRequest_catch clk operation e p0 =
     (let duration = t_end clk - t_start clk;
          p1 = p0\<lparr> circuitBreaker := recordFailure (t_end clk) (circuitBreaker p0) \<rparr>;
          p2 = recordMetric (RequestMetric (providerName p1) operation duration False) p1;
          p3 = recordMetric (ErrorMetric (providerName p2) operation (constructorName e)) p2;
          p4 = logTo (LogError ''Request failed'' e) p3
      in (Inl (ProviderError (providerName p4) operation e), p4))"

definition executeRequest ::
  "exec_clock \<Rightarrow> string \<Rightarrow> 'a request_fn \<Rightarrow> SportsDataProvider
     \<Rightarrow> ((error + 'a) \<times> SportsDataProvider) option" where
  "executeRequest clk operation request p =
     (case executeRequest_body clk operation request p of
        None \<Rightarrow> None
      | Some body \<Rightarrow> Some (try_catch body (executeRequest_catch clk operation)))"

text \<open>An ESPN provider as its constructor leaves it at clock reading \<open>now\<close>.\<close>

definition newESPNProvider :: "int \<Rightarrow> error + SportsDataProvider" where
  "newESPNProvider now =
     (case newCircuitBreaker espnBreakerConfig of
        Inl e \<Rightarrow> Inl e
      | Inr cb \<Rightarrow> Inr \<lparr> providerName = ''ESPN'',
                       rateLimiter = newRateLimiter espnLimiterConfig now,
                       circuitBreaker = cb, metricsLog = [], loggerLog = [] \<rparr>)"

section \<open>In-memory cache (class InMemoryCacheService, infrastructure/cache/cache.service.ts)\<close>

record 'v CacheEntry =
  entry_value :: 'v
  expiresAt :: rat
  entry_cachedAt :: int

type_synonym 'v InMemoryCacheService = "string \<rightharpoonup> 'v CacheEntry"

definition cache_get ::
  "int \<Rightarrow> string \<Rightarrow> 'v InMemoryCacheService \<Rightarrow> 'v option \<times> 'v InMemoryCacheService" where
  "cache_get now key cache =
     (case cache key of
        None \<Rightarrow> (None, cache)
      | Some entry \<Rightarrow>
          if of_int now > expiresAt entry then (None, cache(key := None))
          else (Some (entry_value entry), cache))"

definition cache_set ::
  "int \<Rightarrow> string \<Rightarrow> 'v \<Rightarrow> rat \<Rightarrow> 'v InMemoryCacheService \<Rightarrow> 'v InMemoryCacheService" where
  "cache_set now key v ttlSeconds cache =
     (let expires = of_int now + ttlSeconds * 1000
      in cache(key \<mapsto> \<lparr> entry_value = v, expiresAt = expires, entry_cachedAt = now \<rparr>))"

definition cache_delete :: "string \<Rightarrow> 'v InMemoryCacheService \<Rightarrow> 'v InMemoryCacheService" where
  "cache_delete key cache = cache(key := None)"

definition cache_has ::
  "int \<Rightarrow> string \<Rightarrow> 'v InMemoryCacheService \<Rightarrow> bool \<times> 'v InMemoryCacheService" where
  "cache_has now key cache =
     (case cache key of
        None \<Rightarrow> (False, cache)
      | Some entry \<Rightarrow>
          if of_int now > expiresAt entry then (False, cache(key := None))
          else (True, cache))"

definition cache_clear :: "'v InMemoryCacheService \<Rightarrow> 'v InMemoryCacheService" where
  "cache_clear cache = Map.empty"

section \<open>Event bus (infrastructure/events/event-bus.ts)\<close>

record 'd DomainEvent =
  eventName :: string
  occurredAt :: int
  eventData :: 'd

text \<open>
  A handler is a function object: \<open>handlerId\<close> stands for its identity (what the
  \<^verbatim>\<open>Set\<close> compares), \<open>handlerRun\<close> for the outcome of awaiting it on an event, where
  \<open>Inl\<close> is a synchronous throw or a rejected promise. Handlers do not call back into
  the bus while it dispatches. A \<^verbatim>\<open>Set\<close> of handlers is a list in insertion order
  without repeated identities.
\<close>

record 'd EventHandler =
  handlerId :: nat
  handlerRun :: "'d DomainEvent \<Rightarrow> error + unit"

record 'd InMemoryEventBus =
  handlers :: "string \<rightharpoonup> 'd EventHandler list"
  onceHandlers :: "string \<rightharpoonup> 'd EventHandler list"

text \<open>What a dispatch leaves behind: the handlers called, and the console.error lines.\<close>

record dispatch_trace =
  invoked :: "nat list"
  consoleErrors :: "string list"

definition emptyTrace :: dispatch_trace where
  "emptyTrace = \<lparr> invoked = [], consoleErrors = [] \<rparr>"

text \<open>One pass of \<^verbatim>\<open>try { await handler(event) } catch (error) { console.error(...) }\<close>.\<close>

definition callHandler ::
  "string \<Rightarrow> 'd DomainEvent \<Rightarrow> 'd EventHandler \<Rightarrow> dispatch_trace \<Rightarrow> (error + unit) \<times> dispatch_trace" where
  "callHandler label event h tr =
     try_catch (handlerRun h event, tr\<lparr> invoked := invoked tr @ [handlerId h] \<rparr>)
       (\<lambda>e tr'. (Inr (), tr'\<lparr> consoleErrors := consoleErrors tr' @ [label @ eventName event @ '':''] \<rparr>))"

text \<open>The \<^verbatim>\<open>for ... of\<close> loop: an exception that leaves a pass ends the loop.\<close>

fun dispatch ::
  "string \<Rightarrow> 'd DomainEvent \<Rightarrow> 'd EventHandler list \<Rightarrow> dispatch_trace \<Rightarrow> (error + unit) \<times> dispatch_trace" where
  "dispatch label event [] tr = (Inr (), tr)"
| "dispatch label event (h # hs) tr =
     (case callHandler label event h tr of
        (Inl e, tr') \<Rightarrow> (Inl e, tr')
      | (Inr u, tr') \<Rightarrow> dispatch label event hs tr')"

definition emit ::
  "int \<Rightarrow> string \<Rightarrow> 'd \<Rightarrow> 'd InMemoryEventBus \<times> dispatch_trace
     \<Rightarrow> (error + unit) \<times> 'd InMemoryEventBus \<times> dispatch_trace" where
  "emit now name d w =
     (let bus = fst w; tr0 = snd w;
          event = \<lparr> eventName = name, occurredAt = now, eventData = d \<rparr>;
          (r1, tr1) = (case handlers bus name of
                         None \<Rightarrow> (Inr (), tr0)
                       | Some regularHandlers \<Rightarrow>
                           dispatch ''Error in event handler for '' event regularHandlers tr0)
      in case r1 of
           Inl e \<Rightarrow> (Inl e, bus, tr1)
         | Inr u \<Rightarrow>
             (case onceHandlers bus name of
                None \<Rightarrow> (Inr (), bus, tr1)
              | Some onceList \<Rightarrow>
                  (case dispatch ''Error in once handler for '' event onceList tr1 of
                     (Inl e, tr2) \<Rightarrow> (Inl e, bus, tr2)
                   | (Inr u', tr2) \<Rightarrow>
                       (Inr (), bus\<lparr> onceHandlers := (onceHandlers bus)(name := None) \<rparr>, tr2))))"

definition addHandler :: "'d EventHandler \<Rightarrow> 'd EventHandler list \<Rightarrow> 'd EventHandler list" where
  "addHandler h hs = (if handlerId h \<in> set (map handlerId hs) then hs else hs @ [h])"

definition on :: "string \<Rightarrow> 'd EventHandler \<Rightarrow> 'd InMemoryEventBus \<Rightarrow> 'd InMemoryEventBus" where
  "on name h bus =
     bus\<lparr> handlers := (handlers bus)(name \<mapsto>
            addHandler h (case handlers bus name of None \<Rightarrow> [] | Some hs \<Rightarrow> hs)) \<rparr>"

definition once :: "string \<Rightarrow> 'd EventHandler \<Rightarrow> 'd InMemoryEventBus \<Rightarrow> 'd InMemoryEventBus" where
  "once name h bus =
     bus\<lparr> onceHandlers := (onceHandlers bus)(name \<mapsto>
            addHandler h (case onceHandlers bus name of None \<Rightarrow> [] | Some hs \<Rightarrow> hs)) \<rparr>"

definition off :: "string \<Rightarrow> 'd EventHandler \<Rightarrow> 'd InMemoryEventBus \<Rightarrow> 'd InMemoryEventBus" where
  "off name h bus =
     (case handlers bus name of
        None \<Rightarrow> bus
      | Some hs \<Rightarrow>
          (let hs' = filter (\<lambda>x. handlerId x \<noteq> handlerId h) hs
           in case hs' of
                [] \<Rightarrow> bus\<lparr> handlers := (handlers bus)(name := None) \<rparr>
              | x # xs \<Rightarrow> bus\<lparr> handlers := (handlers bus)(name \<mapsto> hs') \<rparr>))"

definition subscribed :: "(string \<rightharpoonup> 'd EventHandler list) \<Rightarrow> string \<Rightarrow> 'd EventHandler list" where
  "subscribed m name = (case m name of None \<Rightarrow> [] | Some hs \<Rightarrow> hs)"

text \<open>
  Whether awaiting a handler on an event throws, and the console lines that a dispatch
  over a list of handlers writes: one for each handler that throws, in order.
\<close>

definition throws :: "'d EventHandler \<Rightarrow> 'd DomainEvent \<Rightarrow> bool" where
  "throws h event = (case handlerRun h event of Inl e \<Rightarrow> True | Inr u \<Rightarrow> False)"

definition errorLines :: "string \<Rightarrow> 'd DomainEvent \<Rightarrow> 'd EventHandler list \<Rightarrow> string list" where
  "errorLines label event hs =
     map (\<lambda>h. label @ eventName event @ '':'') (filter (\<lambda>h. throws h event) hs)"

definition newEventBus :: "'d InMemoryEventBus" where
  "newEventBus = \<lparr> handlers = Map.empty, onceHandlers = Map.empty \<rparr>"

section \<open>Games (domain/value-objects/game-status.ts, domain/entities/game.entity.ts)\<close>

datatype GameStatus =
    SCHEDULED | PREGAME | IN_PROGRESS | HALFTIME | FINAL | FINAL_OVERTIME
  | POSTPONED | CANCELLED | SUSPENDED | DELAYED

definition isLiveStatus :: "GameStatus \<Rightarrow> bool" where
  "isLiveStatus s = (s = IN_PROGRESS \<or> s = HALFTIME)"

definition isCompletedStatus :: "GameStatus \<Rightarrow> bool" where
  "isCompletedStatus s = (s = FINAL \<or> s = FINAL_OVERTIME)"

text \<open>
  Of a game, the fields that the use cases read: its id, its status and
  \<open>scheduledAt\<close> as \<^verbatim>\<open>getTime()\<close> gives it: milliseconds, or \<open>None\<close> for NaN, the
  time of an Invalid Date. The constructor of \<open>Game\<close> only tests
  \<^verbatim>\<open>scheduledAt instanceof Date\<close>, and \<^verbatim>\<open>new Date(event.date)\<close> in the ESPN transformer
  is an Invalid Date when the string does not parse.
\<close>

record Game =
  game_id :: string
  status :: GameStatus
  scheduledAt :: "int option"





section \<open>Array.prototype.sort with a comparator\<close>




definition isLive :: "Game \<Rightarrow> bool" where
  "isLive g = isLiveStatus (status g)"

definition isCompleted :: "Game \<Rightarrow> bool" where
  "isCompleted g = isCompletedStatus (status g)"

datatype SeasonType = Preseason | Regular | Postseason

fun seasonTypeName :: "SeasonType \<Rightarrow> string" where
  "seasonTypeName Preseason = ''preseason''"
| "seasonTypeName Regular = ''regular''"
| "seasonTypeName Postseason = ''postseason''"

text \<open>\<^verbatim>\<open>params.seasonType || 'regular'\<close>\<close>

definition seasonTypeOrRegular :: "SeasonType option \<Rightarrow> string" where
  "seasonTypeOrRegular st = (case st of None \<Rightarrow> ''regular'' | Some t \<Rightarrow> seasonTypeName t)"

text \<open>A whole number inside a template literal: its decimal digits, with a sign.\<close>

definition digitChar :: "nat \<Rightarrow> char" where
  "digitChar n = ''0123456789'' ! (n mod 10)"

fun natToString :: "nat \<Rightarrow> string" where
  "natToString n =
     (if n < 10 then [digitChar n]
      else natToString (n div 10) @ [digitChar (n mod 10)])"

definition numberToString :: "int \<Rightarrow> string" where
  "numberToString i = (if i < 0 then CHR ''-'' # natToString (nat (- i)) else natToString (nat i))"

section \<open>ESPN provider (class ESPNProvider, infrastructure/providers/espn/espn-provider.ts)\<close>

text \<open>
  What the network gives one \<open>getGames\<close> call: \<open>Inl\<close> when \<^verbatim>\<open>fetch\<close> rejects, the
  response is not ok or its body is not JSON (the error thrown); otherwise the events of
  the response, each as \<open>ESPNTransformer.toGame\<close> turns it out: a game, or the error
  that the transformer throws on it.
\<close>

type_synonym upstream = "error + (error + Game) list"

definition transformedGames :: "(error + Game) list \<Rightarrow> Game list" where
  "transformedGames events =
     concat (map (\<lambda>ev. case ev of Inl e \<Rightarrow> [] | Inr g \<Rightarrow> [g]) events)"

definition warnFailedTransforms :: "(error + Game) list \<Rightarrow> SportsDataProvider \<Rightarrow> SportsDataProvider" where
  "warnFailedTransforms events p =
     foldl (\<lambda>q ev. case ev of
                      Inl e \<Rightarrow> logTo (LogWarn ''Failed to transform ESPN event'') q
                    | Inr g \<Rightarrow> q) p events"

text \<open>The request function that \<open>getGames\<close> hands to \<open>executeRequest\<close>.\<close>

definition getGamesRequest :: "upstream \<Rightarrow> Game list request_fn" where
  "getGamesRequest up p0 =
     (let p1 = logTo (LogInfo ''Fetching from ESPN'') p0 in
      case up of
        Inl e \<Rightarrow> (Inl e, p1)
      | Inr events \<Rightarrow>
          (let p2 = logTo (LogDebug ''ESPN response received'') p1;
               p3 = warnFailedTransforms events p2;
               p4 = logTo (LogInfo ''ESPN games fetched'') p3
           in (Inr (transformedGames events), p4)))"

definition getGames ::
  "exec_clock \<Rightarrow> upstream \<Rightarrow> SportsDataProvider
     \<Rightarrow> ((error + Game list) \<times> SportsDataProvider) option" where
  "getGames clk up p = executeRequest clk ''getGames'' (getGamesRequest up) p"

text \<open>
  A series of \<open>getGames\<close> calls on one provider, each with its clock readings and what
  the network gives it; the outcomes in order, and the provider as the last call leaves
  it.
\<close>

fun run_requests ::
  "(exec_clock \<times> upstream) list \<Rightarrow> SportsDataProvider
     \<Rightarrow> ((error + Game list) list \<times> SportsDataProvider) option" where
  "run_requests [] p = Some ([], p)"
| "run_requests ((clk, up) # calls) p =
     (case getGames clk up p of
        None \<Rightarrow> None
      | Some (r, p') \<Rightarrow>
          (case run_requests calls p' of
             None \<Rightarrow> None
           | Some (rs, p'') \<Rightarrow> Some (r # rs, p'')))"

text \<open>A request whose clock shows \<open>t\<close> throughout: the limiter is asked once.\<close>

definition instantClock :: "int \<Rightarrow> exec_clock" where
  "instantClock t = \<lparr> t_start = t, t_acquire = t, t_rounds = [(t, t)], t_end = t \<rparr>"

section \<open>Result envelopes of the use cases\<close>

text \<open>
  The metadata fields that both results have are \<open>CommonMetadata\<close> (the source's
  \<open>season\<close>, \<open>seasonType\<close>, \<open>cachedAt\<close>, \<open>gameCount\<close>, with the prefix \<open>meta_\<close>
  where the name is also a parameter's); each use case extends it.
\<close>

record CommonMetadata =
  meta_season :: int
  meta_seasonType :: string
  cachedAt :: "int option"
  gameCount :: nat

record ScoreboardMetadata = CommonMetadata +
  meta_week :: int
  liveGameCount :: nat

record ScheduleMetadata = CommonMetadata +
  meta_optWeek :: "int option"
  upcomingGameCount :: nat

record 'm ResultEnvelope =
  games :: "Game list"
  fromCache :: bool
  metadata :: 'm

type_synonym ScoreboardResult = "ScoreboardMetadata ResultEnvelope"
type_synonym ScheduleResult = "ScheduleMetadata ResultEnvelope"

section \<open>Scoreboard use case (class GetScoreboardUseCase)\<close>

record GetScoreboardParams =
  sb_season :: int
  sb_week :: int
  sb_seasonType :: "SeasonType option"

text \<open>The result that \<open>execute\<close> builds from the fetched games at clock reading \<open>now\<close>.\<close>

definition buildScoreboardResult :: "GetScoreboardParams \<Rightarrow> Game list \<Rightarrow> int \<Rightarrow> ScoreboardResult" where
  "buildScoreboardResult params gs now =
     \<lparr> games = gs, fromCache = False,
       metadata = \<lparr> meta_season = sb_season params,
                    meta_seasonType = seasonTypeOrRegular (sb_seasonType params),
                    cachedAt = Some now,
                    gameCount = length gs,
                    meta_week = sb_week params,
                    liveGameCount = length (filter isLive gs) \<rparr> \<rparr>"

definition scoreboardCacheKey :: "GetScoreboardParams \<Rightarrow> string" where
  "scoreboardCacheKey params =
     ''scoreboard:'' @ numberToString (sb_season params) @ '':''
       @ seasonTypeOrRegular (sb_seasonType params) @ '':'' @ numberToString (sb_week params)"

definition scoreboardShouldRefreshCache :: "int \<Rightarrow> ScoreboardResult \<Rightarrow> bool" where
  "scoreboardShouldRefreshCache now cached =
     (case cachedAt (metadata cached) of
        None \<Rightarrow> True
      | Some stamp \<Rightarrow>
          (let cacheAge = now - stamp in
           if liveGameCount (metadata cached) > 0 then cacheAge > 30 * 1000
           else cacheAge > 5 * 60 * 1000))"

definition allCompleted :: "Game list \<Rightarrow> bool" where
  "allCompleted gs = list_all isCompleted gs"

definition allScheduled :: "Game list \<Rightarrow> bool" where
  "allScheduled gs = list_all (\<lambda>g. \<not> isLive g \<and> \<not> isCompleted g) gs"

definition calculateCacheTTL :: "ScoreboardResult \<Rightarrow> nat" where
  "calculateCacheTTL result =
     (if liveGameCount (metadata result) > 0 then 30
      else if allCompleted (games result) then 3600
      else if allScheduled (games result) then 300
      else 60)"

section \<open>What the use cases share\<close>

text \<open>
  The repository queries that the use cases await; \<open>Inl\<close> is a rejected promise.
\<close>

record GameRepository =
  findByWeek :: "int \<Rightarrow> int \<Rightarrow> SeasonType option \<Rightarrow> error + Game list"
  findByFilter :: "int \<Rightarrow> SeasonType option \<Rightarrow> error + Game list"
  findById :: "string \<Rightarrow> error + Game option"

text \<open>
  What a use case holds by reference: the cache (of its own results \<open>'r\<close>), the bus
  with what its dispatches left behind, and, for the record, the events handed to
  \<open>emit\<close> so far.
\<close>

record ('r, 'e) use_case_world =
  cacheService :: "'r InMemoryCacheService"
  eventBus :: "'e InMemoryEventBus"
  busTrace :: dispatch_trace
  emitted :: "(string \<times> 'e) list"

definition emitEvent ::
  "int \<Rightarrow> string \<Rightarrow> 'e \<Rightarrow> ('r, 'e) use_case_world \<Rightarrow> (error + unit) \<times> ('r, 'e) use_case_world" where
  "emitEvent now name d w =
     (case emit now name d (eventBus w, busTrace w) of
        (r, bus, tr) \<Rightarrow>
          (r, w\<lparr> eventBus := bus, busTrace := tr, emitted := emitted w @ [(name, d)] \<rparr>))"

text \<open>
  The clock readings of one \<open>execute\<close>: in \<open>cache.get\<close>, in \<open>shouldRefreshCache\<close>,
  when the result is built, in \<open>cache.set\<close> and in \<open>emit\<close>.
\<close>

record use_case_clock =
  t_get :: int
  t_stale :: int
  t_build :: int
  t_set :: int
  t_emit :: int

section \<open>Schedule use case (application/use-cases/get-schedule.use-case.ts)\<close>

record GetScheduleParams =
  season :: int
  week :: "int option"
  seasonType :: "SeasonType option"

datatype schedule_event =
    ScheduleCacheHit GetScheduleParams "int option"
  | ScheduleFetched GetScheduleParams nat nat

type_synonym schedule_world = "(ScheduleResult, schedule_event) use_case_world"

text \<open>\<^verbatim>\<open>params.week ? ... : ...\<close>: an absent week and week 0 are both falsy.\<close>

definition truthyWeek :: "GetScheduleParams \<Rightarrow> int option" where
  "truthyWeek params =
     (case week params of None \<Rightarrow> None | Some w \<Rightarrow> if w = 0 then None else Some w)"

definition scheduleCacheKey :: "GetScheduleParams \<Rightarrow> string" where
  "scheduleCacheKey params =
     ''schedule:'' @ numberToString (season params) @ '':''
       @ seasonTypeOrRegular (seasonType params)
       @ (case truthyWeek params of Some w \<Rightarrow> '':'' @ numberToString w | None \<Rightarrow> '':all'')"

definition scheduleShouldRefreshCache :: "int \<Rightarrow> ScheduleResult \<Rightarrow> bool" where
  "scheduleShouldRefreshCache now cached =
     (case cachedAt (metadata cached) of
        None \<Rightarrow> True
      | Some stamp \<Rightarrow> now - stamp > 5 * 60 * 1000)"





text \<open>
  The use case looks in the cache first:
  \<^verbatim>\<open>cached && !this.shouldRefreshCache(cached)\<close> gives a usable hit, or nothing.
\<close>

definition usableHit ::
  "use_case_clock \<Rightarrow> GetScheduleParams \<Rightarrow> schedule_world \<Rightarrow> ScheduleResult option" where
  "usableHit clk params w =
     (case fst (cache_get (t_get clk) (scheduleCacheKey params) (cacheService w)) of
        None \<Rightarrow> None
      | Some cached \<Rightarrow>
          if scheduleShouldRefreshCache (t_stale clk) cached then None else Some cached)"


section \<open>Game details use case (application/use-cases/get-game-details.use-case.ts)\<close>

record GetGameDetailsParams =
  gameId :: string

record GameDetailsMetadata =
  details_cachedAt :: int

record GameDetailsResult =
  game :: "Game option"
  details_fromCache :: bool
  details_metadata :: GameDetailsMetadata

datatype details_event =
    GameDetailsCacheHit string int
  | GameDetailsFetched string GameStatus nat

type_synonym details_world = "(GameDetailsResult, details_event) use_case_world"

definition detailsCacheKey :: "string \<Rightarrow> string" where
  "detailsCacheKey gid = ''game:'' @ gid"

definition detailsShouldRefreshCache :: "int \<Rightarrow> GameDetailsResult \<Rightarrow> bool" where
  "detailsShouldRefreshCache now cached =
     (case game cached of
        None \<Rightarrow> True
      | Some g \<Rightarrow>
          (let cacheAge = now - details_cachedAt (details_metadata cached) in
           if isLive g then cacheAge > 15 * 1000
           else if isCompleted g then cacheAge > 3600 * 1000
           else cacheAge > 5 * 60 * 1000))"

definition detailsCalculateCacheTTL :: "Game \<Rightarrow> nat" where
  "detailsCalculateCacheTTL g =
     (if isLive g then 15 else if isCompleted g then 3600 else 300)"

text \<open>
  \<^verbatim>\<open>cached && cached.game && !this.shouldRefreshCache(cached)\<close>: the staleness check
  is only reached for a cached result that has a game.
\<close>

definition detailsUsableHit ::
  "use_case_clock \<Rightarrow> GetGameDetailsParams \<Rightarrow> details_world \<Rightarrow> GameDetailsResult option" where
  "detailsUsableHit clk params w =
     (case fst (cache_get (t_get clk) (detailsCacheKey (gameId params)) (cacheService w)) of
        None \<Rightarrow> None
      | Some cached \<Rightarrow>
          (case game cached of
             None \<Rightarrow> None
           | Some g \<Rightarrow>
               if detailsShouldRefreshCache (t_stale clk) cached then None else Some cached))"

definition detailsExecute ::
  "use_case_clock \<Rightarrow> GameRepository \<Rightarrow> GetGameDetailsParams \<Rightarrow> details_world
     \<Rightarrow> (error + GameDetailsResult) \<times> details_world" where
  "detailsExecute clk repo params w0 =
     (let cacheKey = detailsCacheKey (gameId params);
          w1 = w0\<lparr> cacheService := snd (cache_get (t_get clk) cacheKey (cacheService w0)) \<rparr>
      in case detailsUsableHit clk params w0 of
           Some cached \<Rightarrow>
             (case emitEvent (t_emit clk) ''game-details.cache-hit''
                     (GameDetailsCacheHit (gameId params) (details_cachedAt (details_metadata cached)))
                     w1 of
                (Inl e, w2) \<Rightarrow> (Inl e, w2)
              | (Inr u, w2) \<Rightarrow> (Inr (cached\<lparr> details_fromCache := True \<rparr>), w2))
         | None \<Rightarrow>
             (case findById repo (gameId params) of
                Inl e \<Rightarrow> (Inl e, w1)
              | Inr found \<Rightarrow>
                  (let result = \<lparr> game = found, details_fromCache = False,
                                  details_metadata = \<lparr> details_cachedAt = t_build clk \<rparr> \<rparr>
                   in case found of
                        None \<Rightarrow> (Inr result, w1)
                      | Some g \<Rightarrow>
                          (let ttl = detailsCalculateCacheTTL g;
                               w2 = w1\<lparr> cacheService :=
                                     cache_set (t_set clk) cacheKey result (of_nat ttl) (cacheService w1) \<rparr>
                           in case emitEvent (t_emit clk) ''game-details.fetched''
                                     (GameDetailsFetched (gameId params) (status g) ttl) w2 of
                                (Inl e, w3) \<Rightarrow> (Inl e, w3)
                              | (Inr u, w3) \<Rightarrow> (Inr result, w3)))))"

section \<open>Sample data\<close>

text \<open>An upstream failure as \<open>getGames\<close> throws it on a non-2xx response.\<close>

definition serverError :: upstream where
  "serverError = Inl (Error ''ESPN API error: 500 Internal Server Error'')"

definition fiveFailures :: "(exec_clock \<times> upstream) list" where
  "fiveFailures = map (\<lambda>t. (instantClock t, serverError)) [1, 2, 3, 4, 5]"

text \<open>An ESPN provider constructed at clock reading 0 and then sent the given requests.\<close>

definition espnAfter ::
  "(exec_clock \<times> upstream) list
     \<Rightarrow> ((error + Game list) list \<times> SportsDataProvider) option" where
  "espnAfter calls = (case newESPNProvider 0 of Inl e \<Rightarrow> None | Inr p \<Rightarrow> run_requests calls p)"

definition gameScheduledLate :: Game where
  "gameScheduledLate = \<lparr> game_id = ''401'', status = SCHEDULED, scheduledAt = Some 3000 \<rparr>"

definition gameFinal :: Game where
  "gameFinal = \<lparr> game_id = ''402'', status = FINAL, scheduledAt = Some 1000 \<rparr>"

definition gamePregame :: Game where
  "gamePregame = \<lparr> game_id = ''403'', status = PREGAME, scheduledAt = Some 2000 \<rparr>"

definition gameLive :: Game where
  "gameLive = \<lparr> game_id = ''404'', status = IN_PROGRESS, scheduledAt = Some 1500 \<rparr>"




definition fourGamesRepo :: GameRepository where
  "fourGamesRepo =
     \<lparr> findByWeek = (\<lambda>s w st. Inr [gameScheduledLate, gameFinal, gamePregame, gameLive]),
       findByFilter = (\<lambda>s st. Inr []),
       findById = (\<lambda>gid. Inr None) \<rparr>"



definition firstCallClock :: use_case_clock where
  "firstCallClock = \<lparr> t_get = 100, t_stale = 100, t_build = 105, t_set = 106, t_emit = 107 \<rparr>"



text \<open>Handlers as in the bus's own tests: one that rejects, one that does nothing.\<close>

definition errorHandler :: "nat \<Rightarrow> unit EventHandler" where
  "errorHandler i = \<lparr> handlerId = i, handlerRun = (\<lambda>ev. Inl (Error ''Handler error'')) \<rparr>"

definition successHandler :: "nat \<Rightarrow> unit EventHandler" where
  "successHandler i = \<lparr> handlerId = i, handlerRun = (\<lambda>ev. Inr ()) \<rparr>"

definition testBus :: "unit InMemoryEventBus" where
  "testBus =
     once ''test.event'' (errorHandler 3)
       (on ''test.event'' (successHandler 2)
          (on ''test.event'' (errorHandler 1) newEventBus))"

text \<open>
  A cache in which game 404 was stored while live, at clock reading 0 with the TTL of 15
  seconds that \<open>detailsCalculateCacheTTL\<close> gives a live game.
\<close>

definition liveGameCached :: details_world where
  "liveGameCached =
     \<lparr> cacheService =
         cache_set 0 (detailsCacheKey ''404'')
           \<lparr> game = Some gameLive, details_fromCache = False,
             details_metadata = \<lparr> details_cachedAt = 0 \<rparr> \<rparr>
           (of_nat (detailsCalculateCacheTTL gameLive)) Map.empty,
       eventBus = newEventBus, busTrace = emptyTrace, emitted = [] \<rparr>"

text \<open>A cache that holds, under the key of game 999, a result without a game.\<close>

definition nullGameCached :: details_world where
  "nullGameCached =
     \<lparr> cacheService =
         cache_set 0 (detailsCacheKey ''999'')
           \<lparr> game = None, details_fromCache = False,
             details_metadata = \<lparr> details_cachedAt = 0 \<rparr> \<rparr>
           300 Map.empty,
       eventBus = newEventBus, busTrace = emptyTrace, emitted = [] \<rparr>"

definition laterCallClock :: use_case_clock where
  "laterCallClock =
     \<lparr> t_get = 20000, t_stale = 20000, t_build = 20005, t_set = 20006, t_emit = 20007 \<rparr>"

definition week10 :: GetScoreboardParams where
  "week10 = \<lparr> sb_season = 2025, sb_week = 10, sb_seasonType = None \<rparr>"

section \<open>Circuit breaker: properties\<close>

lemma fresh_breaker:
  "newCircuitBreaker cfg = Inr cb0 \<Longrightarrow>
   cb0 = \<lparr> state = CLOSED, failureCount = 0, successCount = 0, requestCount = 0,
           lastFailureTime = 0, nextAttemptTime = 0, config = cfg \<rparr>"
  by (simp add: newCircuitBreaker_def split: if_splits)

lemma espn_breaker_fresh:
  "newCircuitBreaker espnBreakerConfig =
     Inr \<lparr> state = CLOSED, failureCount = 0, successCount = 0, requestCount = 0,
           lastFailureTime = 0, nextAttemptTime = 0, config = espnBreakerConfig \<rparr>"
  by (simp add: newCircuitBreaker_def espnBreakerConfig_def)

lemmas breaker_steps =
  record_all_def recordFailure_def recordSuccess_def transitionToOpen_def failureRate_def Let_def

lemma allow_all_while_open:
  "state cb = OPEN \<Longrightarrow> list_all (\<lambda>t. t < nextAttemptTime cb) ts \<Longrightarrow>
   allow_all ts cb = (replicate (length ts) False, cb)"
  by (induction ts) (simp_all add: allowRequest_def)

lemma three_trailing_failures_open:
  assumes "newCircuitBreaker cfg = Inr cb0"
    and "minimumRequests cfg = 5" and "failureThreshold cfg = 50"
  shows "state (record_all [c1, c2, RecordFailure t3, RecordFailure t4, RecordFailure t5] cb0) = OPEN
       \<and> nextAttemptTime (record_all [c1, c2, RecordFailure t3, RecordFailure t4, RecordFailure t5] cb0)
           = t5 + resetTimeout cfg"
  using assms(2-) fresh_breaker[OF assms(1)]
  by (cases c1; cases c2) (simp_all add: breaker_steps)

text \<open>
  With \<open>minimumRequests = 5\<close> and \<open>failureThreshold = 50\<close>, five recorded requests
  open a fresh breaker exactly when the last three are failures: a success in CLOSED
  sets \<open>failureCount\<close> back to 0, and the rate is only looked at in \<open>recordFailure\<close>.
\<close>

lemma five_calls_open_iff:
  assumes "newCircuitBreaker cfg = Inr cb0"
    and "minimumRequests cfg = 5" and "failureThreshold cfg = 50"
  shows "state (record_all [c1, c2, c3, c4, c5] cb0) = OPEN
         \<longleftrightarrow> is_failure c3 \<and> is_failure c4 \<and> is_failure c5"
  using assms(2-) fresh_breaker[OF assms(1)]
  by (cases c1; cases c2; cases c3; cases c4; cases c5) (simp_all add: breaker_steps)

text \<open>
  Claim C3, as the code has it. From a fresh breaker with \<open>minimumRequests = 5\<close> and
  \<open>failureThreshold = 50\<close>, five recorded requests of which the last three are
  \<open>recordFailure\<close> leave the breaker OPEN; from then on \<open>allowRequest\<close> answers false at
  every clock reading before the time of the fifth call plus \<open>resetTimeout\<close>, however
  often it is asked, and answers true once that time is reached.
\<close>

theorem C3_opens_after_three_trailing_failures:
  assumes "newCircuitBreaker cfg = Inr cb0"
    and "minimumRequests cfg = 5" and "failureThreshold cfg = 50"
    and "cb = record_all [c1, c2, RecordFailure t3, RecordFailure t4, RecordFailure t5] cb0"
  shows "(list_all (\<lambda>t. t < t5 + resetTimeout cfg) ts
            \<longrightarrow> allow_all ts cb = (replicate (length ts) False, cb))
       \<and> (now \<ge> t5 + resetTimeout cfg \<longrightarrow> fst (allowRequest now cb) = True)"
proof -
  have opened: "state cb = OPEN" and nxt: "nextAttemptTime cb = t5 + resetTimeout cfg"
    using three_trailing_failures_open[OF assms(1-3), of c1 c2 t3 t4 t5] assms(4) by simp_all
  have "list_all (\<lambda>t. t < t5 + resetTimeout cfg) ts
          \<Longrightarrow> allow_all ts cb = (replicate (length ts) False, cb)"
    using allow_all_while_open[OF opened, of ts] nxt by simp
  moreover have "now \<ge> t5 + resetTimeout cfg \<Longrightarrow> fst (allowRequest now cb) = True"
    using opened nxt by (simp add: allowRequest_def)
  ultimately show ?thesis by blast
qed

theorem C3_opens_after_three_trailing_failures_witness:
  "newCircuitBreaker espnBreakerConfig
     = Inr \<lparr> state = CLOSED, failureCount = 0, successCount = 0, requestCount = 0,
             lastFailureTime = 0, nextAttemptTime = 0, config = espnBreakerConfig \<rparr>
   \<and> minimumRequests espnBreakerConfig = 5 \<and> failureThreshold espnBreakerConfig = 50
   \<and> list_all (\<lambda>t. t < 5 + resetTimeout espnBreakerConfig) [6, 30000, 60004]
   \<and> fst (allow_all [6, 30000, 60004]
        (record_all [RecordSuccess 1, RecordFailure 2, RecordFailure 3, RecordFailure 4, RecordFailure 5]
           \<lparr> state = CLOSED, failureCount = 0, successCount = 0, requestCount = 0,
             lastFailureTime = 0, nextAttemptTime = 0, config = espnBreakerConfig \<rparr>))
       = [False, False, False]
   \<and> (60005::int) \<ge> 5 + resetTimeout espnBreakerConfig
   \<and> fst (allowRequest 60005
        (record_all [RecordSuccess 1, RecordFailure 2, RecordFailure 3, RecordFailure 4, RecordFailure 5]
           \<lparr> state = CLOSED, failureCount = 0, successCount = 0, requestCount = 0,
             lastFailureTime = 0, nextAttemptTime = 0, config = espnBreakerConfig \<rparr>)) = True"
proof -
  have m: "minimumRequests espnBreakerConfig = 5" and f: "failureThreshold espnBreakerConfig = 50"
    and r: "resetTimeout espnBreakerConfig = 60000"
    by (simp_all add: espnBreakerConfig_def)
  from C3_opens_after_three_trailing_failures[OF espn_breaker_fresh m f refl,
      where ?t5.0 = 5 and ts = "[6, 30000, 60004]" and now = 60005
        and ?c1.0 = "RecordSuccess 1" and ?c2.0 = "RecordFailure 2" and ?t3.0 = 3 and ?t4.0 = 4]
  show ?thesis using espn_breaker_fresh m f r by simp
qed

text \<open>
  The claim as the specification words it asks only for three failures among the five
  requests. Four failures around one success leave the ESPN-configured breaker CLOSED:
  \<open>allowRequest\<close> right after the fifth call still answers true.
\<close>

theorem C3_three_failures_not_enough:
  "length (filter is_failure
       [RecordFailure 1, RecordFailure 2, RecordSuccess 3, RecordFailure 4, RecordFailure 5]) = 4
   \<and> (6::int) < 5 + resetTimeout espnBreakerConfig
   \<and> fst (allowRequest 6
        (record_all [RecordFailure 1, RecordFailure 2, RecordSuccess 3, RecordFailure 4, RecordFailure 5]
           \<lparr> state = CLOSED, failureCount = 0, successCount = 0, requestCount = 0,
             lastFailureTime = 0, nextAttemptTime = 0, config = espnBreakerConfig \<rparr>)) = True"
  by (simp add: breaker_steps espnBreakerConfig_def allowRequest_def)

text \<open>
  Claim C4. When the breaker is OPEN and the clock has reached \<open>nextAttemptTime\<close>, the
  next \<open>allowRequest\<close> answers true and leaves the breaker HALF_OPEN with
  \<open>successCount = 0\<close>, the other fields as they were. A \<open>recordFailure\<close> at clock
  reading \<open>now'\<close> on any HALF_OPEN breaker \<open>hb\<close>, whatever its counters, puts it back to
  OPEN with \<open>nextAttemptTime = now' + resetTimeout\<close>; this holds in particular for the
  breaker that the \<open>allowRequest\<close> above leaves.
\<close>

theorem C4_half_open_probe:
  "(state cb = OPEN \<and> now \<ge> nextAttemptTime cb
      \<longrightarrow> allowRequest now cb = (True, cb\<lparr> state := HALF_OPEN, successCount := 0 \<rparr>)
          \<and> state (recordFailure now' (snd (allowRequest now cb))) = OPEN
          \<and> nextAttemptTime (recordFailure now' (snd (allowRequest now cb)))
              = now' + resetTimeout (config cb))
   \<and> (state hb = HALF_OPEN
      \<longrightarrow> state (recordFailure now' hb) = OPEN
          \<and> nextAttemptTime (recordFailure now' hb) = now' + resetTimeout (config hb)
          \<and> failureCount (recordFailure now' hb) = failureCount hb + 1
          \<and> requestCount (recordFailure now' hb) = requestCount hb + 1
          \<and> successCount (recordFailure now' hb) = successCount hb
          \<and> lastFailureTime (recordFailure now' hb) = now'
          \<and> config (recordFailure now' hb) = config hb)"
  by (simp add: allowRequest_def transitionToHalfOpen_def recordFailure_def
      transitionToOpen_def Let_def)

text \<open>
  The witness runs the breaker as the server configures it, with \<open>successThreshold = 3\<close>:
  ten failures open it at reading 10; the probe at 60010 is admitted; one success leaves
  it HALF_OPEN with \<open>successCount = 1\<close>; the failure at 60100 reopens it until 120100.
\<close>

theorem C4_half_open_probe_witness:
  "record_all tenFailures
       \<lparr> state = CLOSED, failureCount = 0, successCount = 0, requestCount = 0,
         lastFailureTime = 0, nextAttemptTime = 0, config = serverBreakerConfig \<rparr>
     = \<lparr> state = OPEN, failureCount = 10, successCount = 0, requestCount = 10,
         lastFailureTime = 10, nextAttemptTime = 60010, config = serverBreakerConfig \<rparr>
   \<and> allowRequest 60010
        \<lparr> state = OPEN, failureCount = 10, successCount = 0, requestCount = 10,
          lastFailureTime = 10, nextAttemptTime = 60010, config = serverBreakerConfig \<rparr>
       = (True, \<lparr> state = HALF_OPEN, failureCount = 10, successCount = 0, requestCount = 10,
                  lastFailureTime = 10, nextAttemptTime = 60010, config = serverBreakerConfig \<rparr>)
   \<and> recordSuccess \<lparr> state = HALF_OPEN, failureCount = 10, successCount = 0, requestCount = 10,
                  lastFailureTime = 10, nextAttemptTime = 60010, config = serverBreakerConfig \<rparr>
       = \<lparr> state = HALF_OPEN, failureCount = 10, successCount = 1, requestCount = 11,
           lastFailureTime = 10, nextAttemptTime = 60010, config = serverBreakerConfig \<rparr>
   \<and> state (recordFailure 60100
        \<lparr> state = HALF_OPEN, failureCount = 10, successCount = 1, requestCount = 11,
          lastFailureTime = 10, nextAttemptTime = 60010, config = serverBreakerConfig \<rparr>) = OPEN
   \<and> nextAttemptTime (recordFailure 60100
        \<lparr> state = HALF_OPEN, failureCount = 10, successCount = 1, requestCount = 11,
          lastFailureTime = 10, nextAttemptTime = 60010, config = serverBreakerConfig \<rparr>) = 120100"
proof -
  let ?cb = "\<lparr> state = OPEN, failureCount = 10, successCount = 0, requestCount = 10,
          lastFailureTime = 10, nextAttemptTime = 60010, config = serverBreakerConfig \<rparr>"
  let ?hb = "\<lparr> state = HALF_OPEN, failureCount = 10, successCount = 1, requestCount = 11,
          lastFailureTime = 10, nextAttemptTime = 60010, config = serverBreakerConfig \<rparr>"
  have m: "minimumRequests serverBreakerConfig = 10" and f: "failureThreshold serverBreakerConfig = 50"
    and r: "resetTimeout serverBreakerConfig = 60000"
    and t: "effectiveSuccessThreshold serverBreakerConfig = 3"
    by (simp_all add: serverBreakerConfig_def effectiveSuccessThreshold_def)
  have opened: "record_all tenFailures
       \<lparr> state = CLOSED, failureCount = 0, successCount = 0, requestCount = 0,
         lastFailureTime = 0, nextAttemptTime = 0, config = serverBreakerConfig \<rparr> = ?cb"
    by (simp add: tenFailures_def breaker_steps m f r)
  have o: "state ?cb = OPEN" and le: "60010 \<ge> nextAttemptTime ?cb"
    by simp_all
  have half: "state ?hb = HALF_OPEN" by simp
  have one_success: "recordSuccess \<lparr> state = HALF_OPEN, failureCount = 10, successCount = 0,
        requestCount = 10, lastFailureTime = 10, nextAttemptTime = 60010,
        config = serverBreakerConfig \<rparr> = ?hb"
    by (simp add: recordSuccess_def Let_def t)
  note probe = C4_half_open_probe[of ?cb 60010 60100 ?hb, THEN conjunct1, THEN mp,
      OF conjI[OF o le], THEN conjunct1]
  note reopen = C4_half_open_probe[of ?cb 60010 60100 ?hb, THEN conjunct2, THEN mp, OF half]
  from probe reopen opened one_success r show ?thesis by simp
qed

section \<open>Provider: a rejected request\<close>

lemmas exec_steps =
  getGames_def getGamesRequest_def transformedGames_def warnFailedTransforms_def
  executeRequest_def executeRequest_body_def try_catch_def executeRequest_catch_def
  logTo_def recordMetric_def recordFailure_def recordSuccess_def transitionToOpen_def
  transitionToHalfOpen_def Let_def allowRequest_def acquire_def tryAcquire_def refill_def
  failureRate_def instantClock_def newESPNProvider_def newCircuitBreaker_def newRateLimiter_def
  espnBreakerConfig_def espnLimiterConfig_def jsRound_def jsGe_def jsSub_def overflowBound_def

text \<open>
  The rejection is thrown inside the try block, so the catch block of the same function
  handles it like any failed request: it calls \<open>recordFailure\<close> and wraps the error.
\<close>

lemma rejected_request_is_recorded_as_failure:
  assumes "fst (allowRequest (t_start clk) (circuitBreaker p)) = False"
  shows "\<exists>p'. executeRequest clk operation request p =
           Some (Inl (ProviderError (providerName p) operation
                   (ProviderUnavailableError (providerName p @ '' circuit breaker is open''))), p')
         \<and> failureCount (circuitBreaker p') = failureCount (circuitBreaker p) + 1
         \<and> requestCount (circuitBreaker p') = requestCount (circuitBreaker p) + 1"
proof -
  from assms have st: "state (circuitBreaker p) = OPEN"
    by (auto simp: allowRequest_def split: if_splits)
  from assms have a: "allowRequest (t_start clk) (circuitBreaker p) = (False, circuitBreaker p)"
    by (auto simp: allowRequest_def split: if_splits)
  show ?thesis
    using st
    by (simp add: executeRequest_def executeRequest_body_def a try_catch_def
        executeRequest_catch_def logTo_def recordMetric_def recordFailure_def
        transitionToOpen_def Let_def)
qed

text \<open>
  Claim C1 asks that a request which the breaker does not admit fails with a distinct
  unavailable error and leaves \<open>failureCount\<close> and \<open>requestCount\<close> alone. The code at
  a concrete run: five upstream failures at clock readings 1 to 5 open the ESPN
  provider's breaker (counters 5 and 5, next attempt at 60005). A sixth request at
  reading 1000 is not admitted; it comes back as a \<open>ProviderError\<close> that wraps the
  \<open>ProviderUnavailableError\<close>, both counters are 6, and the next attempt has moved to
  61000: at reading 60005, where the breaker would have let a probe through, it now
  still refuses.
\<close>

theorem C1_rejection_is_counted:
  "map_option (\<lambda>x. (state (circuitBreaker (snd x)), failureCount (circuitBreaker (snd x)),
                     requestCount (circuitBreaker (snd x)), nextAttemptTime (circuitBreaker (snd x)),
                     fst (allowRequest 1000 (circuitBreaker (snd x))),
                     fst (allowRequest 60005 (circuitBreaker (snd x)))))
     (espnAfter fiveFailures) = Some (OPEN, 5, 5, 60005, False, True)
   \<and> map_option (\<lambda>x. (last (fst x), state (circuitBreaker (snd x)),
                     failureCount (circuitBreaker (snd x)), requestCount (circuitBreaker (snd x)),
                     nextAttemptTime (circuitBreaker (snd x)),
                     fst (allowRequest 60005 (circuitBreaker (snd x)))))
     (espnAfter (fiveFailures @ [(instantClock 1000, Inr [])]))
     = Some (Inl (ProviderError ''ESPN'' ''getGames''
                    (ProviderUnavailableError ''ESPN circuit breaker is open'')),
             OPEN, 6, 6, 61000, False)"
  by (simp add: espnAfter_def fiveFailures_def serverError_def exec_steps)

section \<open>Rate limiter: the token bound\<close>

lemma overflowBound_pos: "0 < overflowBound"
  by (simp add: overflowBound_def)

lemma limiter_inv_iff:
  "limiter_inv rl \<longleftrightarrow>
     (\<exists>t mx r. tokens rl = Fin t \<and> maxTokens rl = Fin mx \<and> refillRate rl = Fin r
        \<and> 0 \<le> t \<and> t \<le> mx \<and> mx < overflowBound \<and> 0 \<le> r)"
  by (auto simp: limiter_inv_def split: jsnum.splits)

lemma limiter_inv_bounds: "limiter_inv rl \<Longrightarrow> tokens_in_bounds rl"
  by (auto simp: limiter_inv_iff tokens_in_bounds_def)

text \<open>
  A refill adds a product that is not negative: finite, or \<open>+Infinity\<close> on overflow.
  Either way \<open>Math.min\<close> brings the budget back to at most the capacity.
\<close>

lemma refill_keeps_inv:
  assumes "limiter_inv rl" and "lastRefill rl \<le> now"
  shows "limiter_inv (refill now rl) \<and> lastRefill (refill now rl) = now
       \<and> maxTokens (refill now rl) = maxTokens rl"
proof -
  from assms(1) obtain t mx r where f: "tokens rl = Fin t" "maxTokens rl = Fin mx"
      "refillRate rl = Fin r" and b: "0 \<le> t" "t \<le> mx" "mx < overflowBound" "0 \<le> r"
    by (auto simp: limiter_inv_iff)
  let ?a = "(of_int (now - lastRefill rl) :: rat) * r"
  have a: "0 \<le> ?a" using assms(2) b(4) by simp
  have added: "jsMul (Fin (of_int (now - lastRefill rl))) (Fin r) = Fin ?a
      \<or> jsMul (Fin (of_int (now - lastRefill rl))) (Fin r) = PosInf"
    using a overflowBound_pos by (simp add: jsRound_def)
  have "\<exists>t'. jsMin (Fin mx) (jsAdd (Fin t) (jsMul (Fin (of_int (now - lastRefill rl))) (Fin r)))
           = Fin t' \<and> 0 \<le> t' \<and> t' \<le> mx"
  proof -
    from added show ?thesis
    proof
      assume m: "jsMul (Fin (of_int (now - lastRefill rl))) (Fin r) = Fin ?a"
      have "0 \<le> t + ?a" using a b(1) by simp
      then have "jsAdd (Fin t) (Fin ?a) = Fin (t + ?a) \<or> jsAdd (Fin t) (Fin ?a) = PosInf"
        using overflowBound_pos by (simp add: jsRound_def)
      then show ?thesis
      proof
        assume "jsAdd (Fin t) (Fin ?a) = Fin (t + ?a)"
        with m a b show ?thesis by (simp add: min_def)
      next
        assume "jsAdd (Fin t) (Fin ?a) = PosInf"
        with m b show ?thesis by simp
      qed
    next
      assume "jsMul (Fin (of_int (now - lastRefill rl))) (Fin r) = PosInf"
      with b show ?thesis by simp
    qed
  qed
  then obtain t' where t': "jsMin (Fin mx)
        (jsAdd (Fin t) (jsMul (Fin (of_int (now - lastRefill rl))) (Fin r))) = Fin t'"
      "0 \<le> t'" "t' \<le> mx"
    by blast
  show ?thesis
    using f b t' by (simp add: limiter_inv_iff refill_def Let_def)
qed

lemma tryAcquire_keeps_inv:
  assumes "limiter_inv rl" and "lastRefill rl \<le> now"
  shows "limiter_inv (snd (tryAcquire now rl)) \<and> lastRefill (snd (tryAcquire now rl)) = now
       \<and> maxTokens (snd (tryAcquire now rl)) = maxTokens rl"
proof -
  note r = refill_keeps_inv[OF assms]
  from r have "limiter_inv (refill now rl)" by simp
  then obtain t mx rt where f: "tokens (refill now rl) = Fin t" "maxTokens (refill now rl) = Fin mx"
      "refillRate (refill now rl) = Fin rt"
    and b: "0 \<le> t" "t \<le> mx" "mx < overflowBound" "0 \<le> rt"
    unfolding limiter_inv_iff by blast
  show ?thesis
  proof (cases "1 \<le> t")
    case True
    then have "jsSub (Fin t) (Fin 1) = Fin (t - 1)"
      using b overflowBound_pos by (simp add: jsSub_def jsRound_def)
    with True f b r show ?thesis
      by (simp add: tryAcquire_def Let_def jsGe_def limiter_inv_iff)
  next
    case False
    with f r show ?thesis
      by (simp add: tryAcquire_def Let_def jsGe_def)
  qed
qed

lemma getAvailableTokens_keeps_inv:
  assumes "limiter_inv rl" and "lastRefill rl \<le> now"
  shows "limiter_inv (snd (getAvailableTokens now rl))
       \<and> lastRefill (snd (getAvailableTokens now rl)) = now
       \<and> maxTokens (snd (getAvailableTokens now rl)) = maxTokens rl"
  using refill_keeps_inv[OF assms]
  by (simp add: getAvailableTokens_def Let_def)

lemma reset_keeps_inv:
  assumes "limiter_inv rl"
  shows "limiter_inv (reset now rl) \<and> lastRefill (reset now rl) = now
       \<and> maxTokens (reset now rl) = maxTokens rl"
  using assms by (auto simp: reset_def limiter_inv_iff)

lemma acquire_loop_keeps_inv:
  "limiter_inv rl \<Longrightarrow> sorted (lastRefill rl # round_readings rounds) \<Longrightarrow>
   limiter_inv (snd (acquire_loop tm st rounds rl))
   \<and> lastRefill (snd (acquire_loop tm st rounds rl))
       \<in> insert (lastRefill rl) (set (round_readings rounds))
   \<and> maxTokens (snd (acquire_loop tm st rounds rl)) = maxTokens rl"
proof (induction rounds arbitrary: rl)
  case Nil
  then show ?case by simp
next
  case (Cons r rounds)
  obtain tTry tCheck where r: "r = (tTry, tCheck)" by (cases r)
  from Cons.prems have le: "lastRefill rl \<le> tTry"
    and s: "sorted (tTry # round_readings rounds)"
    by (auto simp: r)
  note t = tryAcquire_keeps_inv[OF Cons.prems(1) le]
  have s': "sorted (lastRefill (snd (tryAcquire tTry rl)) # round_readings rounds)"
    using t s by simp
  from Cons.IH[OF _ s'] t show ?case
    by (auto simp: r split: prod.splits)
qed

lemma apply_op_keeps_inv:
  assumes "limiter_inv rl" and "sorted (lastRefill rl # op_readings op)"
  shows "limiter_inv (apply_op rl op)
       \<and> lastRefill (apply_op rl op) \<in> insert (lastRefill rl) (set (op_readings op))
       \<and> maxTokens (apply_op rl op) = maxTokens rl"
proof (cases op)
  case (TryAcquire now)
  then show ?thesis using assms tryAcquire_keeps_inv[of rl now] by simp
next
  case (Acquire tm st rounds)
  with assms have "sorted (lastRefill rl # round_readings rounds)" by auto
  from acquire_loop_keeps_inv[OF assms(1) this, of tm st] Acquire show ?thesis
    by (auto simp: acquire_def)
next
  case (GetAvailableTokens now)
  then show ?thesis using assms getAvailableTokens_keeps_inv[of rl now] by simp
next
  case (Reset now)
  then show ?thesis using assms reset_keeps_inv[of rl now] by simp
qed

lemma run_ops_keeps_inv:
  "limiter_inv rl \<Longrightarrow> sorted (lastRefill rl # concat (map op_readings ops)) \<Longrightarrow>
   limiter_inv (run_ops ops rl) \<and> maxTokens (run_ops ops rl) = maxTokens rl"
proof (induction ops arbitrary: rl)
  case Nil
  then show ?case by (simp add: run_ops_def)
next
  case (Cons op ops)
  from Cons.prems(2) have s1: "sorted (lastRefill rl # op_readings op)"
    by (auto simp: sorted_append)
  note a = apply_op_keeps_inv[OF Cons.prems(1) s1]
  have "sorted (lastRefill (apply_op rl op) # concat (map op_readings ops))"
    using a Cons.prems(2) by (auto simp: sorted_append)
  from Cons.IH[OF _ this] a show ?case by (simp add: run_ops_def)
qed

lemma fresh_limiter_inv:
  assumes "maxRequests cfg = Fin m" and "0 \<le> m" and "m < overflowBound"
    and "windowMs cfg = Fin w" and "0 < w" and "m / w < overflowBound"
  shows "limiter_inv (newRateLimiter cfg t0)"
proof -
  have "0 \<le> m / w" using assms(2,5) by simp
  then have "jsDiv (Fin m) (Fin w) = Fin (m / w)"
    using assms(5,6) overflowBound_pos by (simp add: jsRound_def)
  then show ?thesis
    using assms \<open>0 \<le> m / w\<close> by (simp add: limiter_inv_iff newRateLimiter_def)
qed

lemma monotone_clock_take: "monotone_clock t0 ops \<Longrightarrow> monotone_clock t0 (take k ops)"
proof -
  assume m: "monotone_clock t0 ops"
  have "concat (map op_readings ops)
          = concat (map op_readings (take k ops)) @ concat (map op_readings (drop k ops))"
    by (metis append_take_drop_id concat_append map_append)
  with m show ?thesis
    by (simp add: monotone_clock_def sorted_append)
qed

text \<open>
  Claim C2, as the code has it. Take a limiter constructed with a finite
  \<open>maxRequests \<ge> 0\<close> and a finite \<open>windowMs > 0\<close> whose quotient, the refill rate, does
  not overflow to \<open>Infinity\<close>. For any sequence of \<open>tryAcquire\<close>, \<open>acquire\<close>,
  \<open>getAvailableTokens\<close> and \<open>reset\<close> calls under a clock that never runs backwards,
  \<open>0 \<le> tokens \<le> maxTokens\<close> holds after each of the calls: after the first \<open>k\<close> of
  them, for every \<open>k\<close> (and so, with \<open>k\<close> the length of the sequence, at its end).
  There the budget is a finite number between 0 and \<open>maxRequests\<close>, and the capacity is
  still \<open>maxRequests\<close>.
\<close>

theorem C2_tokens_stay_in_bounds:
  assumes "maxRequests cfg = Fin m" and "0 \<le> m" and "m < overflowBound"
    and "windowMs cfg = Fin w" and "0 < w" and "m / w < overflowBound"
    and "monotone_clock t0 ops"
  shows "tokens_in_bounds (run_ops (take k ops) (newRateLimiter cfg t0))
       \<and> (\<exists>t. tokens (run_ops (take k ops) (newRateLimiter cfg t0)) = Fin t \<and> 0 \<le> t \<and> t \<le> m)
       \<and> maxTokens (run_ops (take k ops) (newRateLimiter cfg t0)) = Fin m"
proof -
  let ?rl = "run_ops (take k ops) (newRateLimiter cfg t0)"
  have "lastRefill (newRateLimiter cfg t0) = t0" by (simp add: newRateLimiter_def)
  with monotone_clock_take[OF assms(7), of k]
  have "sorted (lastRefill (newRateLimiter cfg t0) # concat (map op_readings (take k ops)))"
    by (simp add: monotone_clock_def)
  from run_ops_keeps_inv[OF fresh_limiter_inv[OF assms(1-6)] this]
  have inv: "limiter_inv ?rl" and cap: "maxTokens ?rl = Fin m"
    using assms(1) by (simp_all add: newRateLimiter_def)
  from inv cap have "\<exists>t. tokens ?rl = Fin t \<and> 0 \<le> t \<and> t \<le> m"
    by (auto simp: limiter_inv_iff)
  with inv cap show ?thesis by (simp add: limiter_inv_bounds)
qed

theorem C2_tokens_stay_in_bounds_witness:
  "maxRequests espnLimiterConfig = Fin 100 \<and> (0::rat) \<le> 100 \<and> (100::rat) < overflowBound
   \<and> windowMs espnLimiterConfig = Fin 60000 \<and> (0::rat) < 60000
   \<and> (100::rat) / 60000 < overflowBound
   \<and> monotone_clock 0
        [TryAcquire 0, Acquire (Fin 5000) 10 [(10, 11)], GetAvailableTokens 700, Reset 900]
   \<and> tokens_in_bounds
        (run_ops (take 3 [TryAcquire 0, Acquire (Fin 5000) 10 [(10, 11)], GetAvailableTokens 700,
                          Reset 900])
           (newRateLimiter espnLimiterConfig 0))
   \<and> tokens
        (run_ops (take 3 [TryAcquire 0, Acquire (Fin 5000) 10 [(10, 11)], GetAvailableTokens 700,
                          Reset 900])
           (newRateLimiter espnLimiterConfig 0)) = Fin (595 / 6)
   \<and> maxTokens
        (run_ops (take 3 [TryAcquire 0, Acquire (Fin 5000) 10 [(10, 11)], GetAvailableTokens 700,
                          Reset 900])
           (newRateLimiter espnLimiterConfig 0)) = Fin 100"
proof -
  have a: "maxRequests espnLimiterConfig = Fin 100" and b: "windowMs espnLimiterConfig = Fin 60000"
    by (simp_all add: espnLimiterConfig_def)
  have m: "(0::rat) \<le> 100" and mb: "(100::rat) < overflowBound" and w: "(0::rat) < 60000"
    and q: "(100::rat) / 60000 < overflowBound"
    by (simp_all add: overflowBound_def)
  have c: "monotone_clock 0
      [TryAcquire 0, Acquire (Fin 5000) 10 [(10, 11)], GetAvailableTokens 700, Reset 900]"
    by (simp add: monotone_clock_def)
  have run: "tokens
        (run_ops (take 3 [TryAcquire 0, Acquire (Fin 5000) 10 [(10, 11)], GetAvailableTokens 700,
                          Reset 900])
           (newRateLimiter espnLimiterConfig 0)) = Fin (595 / 6)"
    by (simp add: run_ops_def tryAcquire_def getAvailableTokens_def acquire_def refill_def
        newRateLimiter_def espnLimiterConfig_def Let_def jsRound_def jsGe_def jsSub_def
        overflowBound_def)
  from C2_tokens_stay_in_bounds[OF a m mb b w q c, of 3] a b m mb w q c run
  show ?thesis by blast
qed

text \<open>
  The constructor accepts any numbers. A limiter made with \<open>maxRequests = -1\<close> starts
  with \<open>tokens = -1\<close>, and one \<open>tryAcquire\<close> at the same clock reading leaves it there.
  A limiter made with \<open>windowMs = -1\<close> has a negative refill rate, and a \<open>tryAcquire\<close>
  five milliseconds later takes its one token down to \<open>-4\<close>. With \<open>windowMs = 2^-1074\<close>,
  the smallest positive double, the rate is \<open>Infinity\<close>; a \<open>tryAcquire\<close> in the
  millisecond of the construction multiplies it by 0 and leaves \<open>tokens = NaN\<close>.
\<close>

theorem C2_unvalidated_configuration:
  "monotone_clock 0 [TryAcquire 0]
   \<and> tokens (run_ops [TryAcquire 0]
        (newRateLimiter \<lparr> maxRequests = Fin (- 1), windowMs = Fin 1000 \<rparr> 0)) = Fin (- 1)
   \<and> \<not> tokens_in_bounds (run_ops [TryAcquire 0]
        (newRateLimiter \<lparr> maxRequests = Fin (- 1), windowMs = Fin 1000 \<rparr> 0))
   \<and> monotone_clock 0 [TryAcquire 5]
   \<and> tokens (run_ops [TryAcquire 5]
        (newRateLimiter \<lparr> maxRequests = Fin 1, windowMs = Fin (- 1) \<rparr> 0)) = Fin (- 4)
   \<and> \<not> tokens_in_bounds (run_ops [TryAcquire 5]
        (newRateLimiter \<lparr> maxRequests = Fin 1, windowMs = Fin (- 1) \<rparr> 0))
   \<and> refillRate (newRateLimiter \<lparr> maxRequests = Fin 1, windowMs = Fin (1 / 2 ^ 1074) \<rparr> 0) = PosInf
   \<and> tokens (run_ops [TryAcquire 0]
        (newRateLimiter \<lparr> maxRequests = Fin 1, windowMs = Fin (1 / 2 ^ 1074) \<rparr> 0)) = NaN
   \<and> \<not> tokens_in_bounds (run_ops [TryAcquire 0]
        (newRateLimiter \<lparr> maxRequests = Fin 1, windowMs = Fin (1 / 2 ^ 1074) \<rparr> 0))"
  by (simp add: monotone_clock_def tokens_in_bounds_def run_ops_def tryAcquire_def refill_def
      newRateLimiter_def Let_def jsRound_def jsGe_def jsSub_def overflowBound_def)

section \<open>Scoreboard: the TTL policy\<close>

lemmas game_facts =
  gameScheduledLate_def gameFinal_def gamePregame_def gameLive_def
  isLive_def isCompleted_def isLiveStatus_def isCompletedStatus_def

lemma ttl_of_built_result:
  "calculateCacheTTL (buildScoreboardResult params gs now) =
     (if list_ex isLive gs then 30
      else if list_all isCompleted gs then 3600
      else if list_all (\<lambda>g. \<not> isLive g \<and> \<not> isCompleted g) gs then 300
      else 60)"
proof -
  have "(0 < length (filter isLive gs)) = list_ex isLive gs"
    by (induction gs) auto
  then show ?thesis
    by (simp add: calculateCacheTTL_def buildScoreboardResult_def allCompleted_def
        allScheduled_def del: length_greater_0_conv)
qed

text \<open>
  Claim C5, as the code has it. For the result that the use case builds from any list of
  fetched games, \<open>calculateCacheTTL\<close> is 30 when some game is live; 3600 when no game is
  live and every game is completed, which includes the empty list; 300 when no game is
  live, there is at least one game, and every game is neither live nor completed; and
  60 in every other case.
\<close>

theorem C5_scoreboard_ttl_policy:
  "(list_ex isLive gs \<longrightarrow> calculateCacheTTL (buildScoreboardResult params gs now) = 30)
   \<and> (\<not> list_ex isLive gs \<and> list_all isCompleted gs
        \<longrightarrow> calculateCacheTTL (buildScoreboardResult params gs now) = 3600)
   \<and> (\<not> list_ex isLive gs \<and> gs \<noteq> [] \<and> list_all (\<lambda>g. \<not> isLive g \<and> \<not> isCompleted g) gs
        \<longrightarrow> calculateCacheTTL (buildScoreboardResult params gs now) = 300)
   \<and> (\<not> list_ex isLive gs \<and> \<not> list_all isCompleted gs
          \<and> \<not> list_all (\<lambda>g. \<not> isLive g \<and> \<not> isCompleted g) gs
        \<longrightarrow> calculateCacheTTL (buildScoreboardResult params gs now) = 60)"
proof -
  have "gs \<noteq> [] \<Longrightarrow> list_all (\<lambda>g. \<not> isLive g \<and> \<not> isCompleted g) gs
          \<Longrightarrow> \<not> list_all isCompleted gs"
    by (cases gs) auto
  then show ?thesis
    unfolding ttl_of_built_result by auto
qed

theorem C5_scoreboard_ttl_policy_witness:
  "list_ex isLive [gameFinal, gameLive]
   \<and> calculateCacheTTL (buildScoreboardResult week10 [gameFinal, gameLive] 0) = 30
   \<and> \<not> list_ex isLive [gameFinal] \<and> list_all isCompleted [gameFinal]
   \<and> calculateCacheTTL (buildScoreboardResult week10 [gameFinal] 0) = 3600
   \<and> \<not> list_ex isLive [gameScheduledLate, gamePregame]
   \<and> [gameScheduledLate, gamePregame] \<noteq> []
   \<and> list_all (\<lambda>g. \<not> isLive g \<and> \<not> isCompleted g) [gameScheduledLate, gamePregame]
   \<and> calculateCacheTTL (buildScoreboardResult week10 [gameScheduledLate, gamePregame] 0) = 300
   \<and> \<not> list_ex isLive [gameFinal, gamePregame] \<and> \<not> list_all isCompleted [gameFinal, gamePregame]
   \<and> \<not> list_all (\<lambda>g. \<not> isLive g \<and> \<not> isCompleted g) [gameFinal, gamePregame]
   \<and> calculateCacheTTL (buildScoreboardResult week10 [gameFinal, gamePregame] 0) = 60"
proof -
  have h1: "list_ex isLive [gameFinal, gameLive]"
    and h2: "\<not> list_ex isLive [gameFinal] \<and> list_all isCompleted [gameFinal]"
    and h3: "\<not> list_ex isLive [gameScheduledLate, gamePregame]
             \<and> [gameScheduledLate, gamePregame] \<noteq> []
             \<and> list_all (\<lambda>g. \<not> isLive g \<and> \<not> isCompleted g) [gameScheduledLate, gamePregame]"
    and h4: "\<not> list_ex isLive [gameFinal, gamePregame]
             \<and> \<not> list_all isCompleted [gameFinal, gamePregame]
             \<and> \<not> list_all (\<lambda>g. \<not> isLive g \<and> \<not> isCompleted g) [gameFinal, gamePregame]"
    by (simp_all add: game_facts)
  have t1: "calculateCacheTTL (buildScoreboardResult week10 [gameFinal, gameLive] 0) = 30"
    by (rule C5_scoreboard_ttl_policy[of "[gameFinal, gameLive]" week10 0,
          THEN conjunct1, THEN mp, OF h1])
  have t2: "calculateCacheTTL (buildScoreboardResult week10 [gameFinal] 0) = 3600"
    by (rule C5_scoreboard_ttl_policy[of "[gameFinal]" week10 0,
          THEN conjunct2, THEN conjunct1, THEN mp, OF h2])
  have t3: "calculateCacheTTL (buildScoreboardResult week10 [gameScheduledLate, gamePregame] 0) = 300"
    by (rule C5_scoreboard_ttl_policy[of "[gameScheduledLate, gamePregame]" week10 0,
          THEN conjunct2, THEN conjunct2, THEN conjunct1, THEN mp, OF h3])
  have t4: "calculateCacheTTL (buildScoreboardResult week10 [gameFinal, gamePregame] 0) = 60"
    by (rule C5_scoreboard_ttl_policy[of "[gameFinal, gamePregame]" week10 0,
          THEN conjunct2, THEN conjunct2, THEN conjunct2, THEN mp, OF h4])
  show ?thesis
    using h1 h2 h3 h4 t1 t2 t3 t4 by (simp add: game_facts)
qed

text \<open>
  On a result without games no game is live and every game is neither live nor
  completed, yet the TTL is 3600 and not 300: the all-completed test comes first and
  holds for the empty list.
\<close>

theorem C5_empty_result_gets_an_hour:
  "\<not> list_ex isLive [] \<and> allScheduled []
   \<and> calculateCacheTTL (buildScoreboardResult week10 [] 0) = 3600
   \<and> calculateCacheTTL (buildScoreboardResult week10 [] 0) \<noteq> 300"
  by (simp add: calculateCacheTTL_def buildScoreboardResult_def allCompleted_def
      allScheduled_def)

text \<open>
  Claim C9. For a result without games the TTL is 3600: the result that the use case
  builds from an empty list has no live game, and the all-completed test holds for the
  empty list; so does any result with an empty games list and a live count of 0.
\<close>

theorem C9_empty_week_cached_for_an_hour:
  "calculateCacheTTL (buildScoreboardResult params [] now) = 3600
   \<and> (games r = [] \<and> liveGameCount (metadata r) = 0 \<longrightarrow> calculateCacheTTL r = 3600)"
  by (simp add: calculateCacheTTL_def buildScoreboardResult_def allCompleted_def)

theorem C9_empty_week_cached_for_an_hour_witness:
  "games (buildScoreboardResult week10 [] 7) = []
   \<and> liveGameCount (metadata (buildScoreboardResult week10 [] 7)) = 0
   \<and> calculateCacheTTL (buildScoreboardResult week10 [] 7) = 3600"
  using C9_empty_week_cached_for_an_hour[of week10 7 "buildScoreboardResult week10 [] 7"]
  by (simp add: buildScoreboardResult_def)

section \<open>Cache: reads, writes and the TTL of an overwritten key\<close>

text \<open>
  Claim C6. A \<open>get\<close> of a key whose entry exists and has \<open>now \<le> expiresAt\<close> returns the
  stored value and leaves the cache as it is; with \<open>now > expiresAt\<close> it returns null
  and removes the entry. A \<open>set\<close> stores, whatever was there, an entry with
  \<open>expiresAt = now + ttlSeconds * 1000\<close>. Hence, when a key set at \<open>t0\<close> with TTL
  \<open>ttl1\<close> is set again at \<open>t1\<close>, not later than its expiry, with a longer TTL \<open>ttl2\<close>,
  the new expiry lies after the old one and every \<open>get\<close> up to the new expiry returns
  the value of the second \<open>set\<close>.
\<close>

theorem C6_cache_get_set:
  "(cache key = Some entry \<and> of_int now \<le> expiresAt entry
      \<longrightarrow> cache_get now key cache = (Some (entry_value entry), cache))
   \<and> (cache key = Some entry \<and> of_int now > expiresAt entry
      \<longrightarrow> cache_get now key cache = (None, cache(key := None)))
   \<and> cache_set now key v ttl cache
       = cache(key \<mapsto> \<lparr> entry_value = v, expiresAt = of_int now + ttl * 1000,
                         entry_cachedAt = now \<rparr>)
   \<and> (t0 \<le> t1 \<and> of_int t1 \<le> of_int t0 + ttl1 * 1000 \<and> ttl1 < ttl2
      \<longrightarrow> of_int t0 + ttl1 * 1000 < of_int t1 + ttl2 * 1000
          \<and> (of_int t \<le> of_int t1 + ttl2 * 1000
              \<longrightarrow> fst (cache_get t key (cache_set t1 key v2 ttl2 (cache_set t0 key v1 ttl1 cache)))
                    = Some v2))"
  by (auto simp: cache_get_def cache_set_def Let_def)

theorem C6_cache_get_set_witness:
  "(Map.empty(''k'' \<mapsto> \<lparr> entry_value = ''v'', expiresAt = 100, entry_cachedAt = 0 \<rparr>)) ''k''
     = Some \<lparr> entry_value = ''v'', expiresAt = 100, entry_cachedAt = 0 \<rparr>
   \<and> cache_get 100 ''k'' (Map.empty(''k'' \<mapsto> \<lparr> entry_value = ''v'', expiresAt = 100, entry_cachedAt = 0 \<rparr>))
       = (Some ''v'', Map.empty(''k'' \<mapsto> \<lparr> entry_value = ''v'', expiresAt = 100, entry_cachedAt = 0 \<rparr>))
   \<and> cache_get 101 ''k'' (Map.empty(''k'' \<mapsto> \<lparr> entry_value = ''v'', expiresAt = 100, entry_cachedAt = 0 \<rparr>))
       = (None, Map.empty)
   \<and> (0::int) \<le> 50 \<and> (of_int 50 :: rat) \<le> of_int 0 + (1 / 10) * 1000 \<and> (1 / 10 :: rat) < 10
   \<and> (of_int 5000 :: rat) \<le> of_int 50 + 10 * 1000
   \<and> (of_int 5000 :: rat) > of_int 0 + (1 / 10) * 1000
   \<and> fst (cache_get 5000 ''k''
        (cache_set 50 ''k'' ''new'' 10 (cache_set 0 ''k'' ''old'' (1 / 10) Map.empty)))
       = Some ''new''"
proof -
  let ?e = "\<lparr> entry_value = ''v'', expiresAt = 100 :: rat, entry_cachedAt = 0 :: int \<rparr>"
  let ?c = "(Map.empty :: string InMemoryCacheService)(''k'' \<mapsto> ?e)"
  have present: "?c ''k'' = Some ?e" by simp
  have ordered: "(0::int) \<le> 50 \<and> (of_int 50 :: rat) \<le> of_int 0 + (1 / 10) * 1000
      \<and> (1 / 10 :: rat) < 10"
    and in_window: "(of_int 5000 :: rat) \<le> of_int 50 + 10 * 1000"
    and past_old: "(of_int 5000 :: rat) > of_int 0 + (1 / 10) * 1000"
    by simp_all
  have fresh: "cache_get 100 ''k'' ?c = (Some ''v'', ?c)"
    using C6_cache_get_set[where cache = ?c and key = "''k''" and entry = ?e and now = 100]
      present by simp
  have expired: "cache_get 101 ''k'' ?c = (None, Map.empty)"
    using C6_cache_get_set[where cache = ?c and key = "''k''" and entry = ?e and now = 101]
      present by simp
  have kept: "fst (cache_get 5000 ''k''
        (cache_set 50 ''k'' ''new'' 10 (cache_set 0 ''k'' ''old'' (1 / 10) Map.empty)))
       = Some ''new''"
    using C6_cache_get_set[where cache = "Map.empty :: string InMemoryCacheService"
        and key = "''k''" and ?t0.0 = 0 and ?t1.0 = 50 and ?ttl1.0 = "1 / 10" and ?ttl2.0 = 10
        and t = 5000 and ?v1.0 = "''old''" and ?v2.0 = "''new''"]
      ordered in_window by blast
  from present fresh expired ordered in_window past_old kept show ?thesis by blast
qed

section \<open>Event bus: handler errors stay inside emit\<close>

lemma callHandler_returns: "fst (callHandler label ev h tr) = Inr ()"
  by (cases "handlerRun h ev") (simp_all add: callHandler_def try_catch_def)

lemma callHandler_invoked:
  "invoked (snd (callHandler label ev h tr)) = invoked tr @ [handlerId h]"
  by (cases "handlerRun h ev") (simp_all add: callHandler_def try_catch_def)

lemma dispatch_calls_all:
  "fst (dispatch label ev hs tr) = Inr ()
   \<and> invoked (snd (dispatch label ev hs tr)) = invoked tr @ map handlerId hs"
proof (induction hs arbitrary: tr)
  case Nil
  then show ?case by simp
next
  case (Cons h hs)
  obtain r tr' where c: "callHandler label ev h tr = (r, tr')"
    by (cases "callHandler label ev h tr")
  with callHandler_returns[of label ev h tr] callHandler_invoked[of label ev h tr]
  have "r = Inr ()" and "invoked tr' = invoked tr @ [handlerId h]" by simp_all
  with Cons.IH[of tr'] c show ?case by simp
qed

lemma emit_calls_all:
  "fst (emit now name d (bus, tr)) = Inr ()
   \<and> invoked (snd (snd (emit now name d (bus, tr))))
       = invoked tr @ map handlerId (subscribed (handlers bus) name)
           @ map handlerId (subscribed (onceHandlers bus) name)
   \<and> onceHandlers (fst (snd (emit now name d (bus, tr)))) name = None"
proof -
  let ?ev = "\<lparr> eventName = name, occurredAt = now, eventData = d \<rparr>"
  show ?thesis
  proof (cases "handlers bus name")
    case None
    note regular = this
    show ?thesis
    proof (cases "onceHandlers bus name")
      case None
      with regular show ?thesis by (simp add: emit_def subscribed_def)
    next
      case (Some os)
      obtain r2 tr2 where d2: "dispatch ''Error in once handler for '' ?ev os tr = (r2, tr2)"
        by (cases "dispatch ''Error in once handler for '' ?ev os tr")
      with dispatch_calls_all[of "''Error in once handler for ''" ?ev os tr]
      have "r2 = Inr ()" and "invoked tr2 = invoked tr @ map handlerId os" by simp_all
      with Some regular d2 show ?thesis
        by (simp add: emit_def subscribed_def)
    qed
  next
    case (Some hs)
    note regular = this
    obtain r1 tr1 where d1: "dispatch ''Error in event handler for '' ?ev hs tr = (r1, tr1)"
      by (cases "dispatch ''Error in event handler for '' ?ev hs tr")
    with dispatch_calls_all[of "''Error in event handler for ''" ?ev hs tr]
    have r1: "r1 = Inr ()" "invoked tr1 = invoked tr @ map handlerId hs" by simp_all
    show ?thesis
    proof (cases "onceHandlers bus name")
      case None
      with regular d1 r1 show ?thesis by (simp add: emit_def subscribed_def)
    next
      case (Some os)
      obtain r2 tr2 where d2: "dispatch ''Error in once handler for '' ?ev os tr1 = (r2, tr2)"
        by (cases "dispatch ''Error in once handler for '' ?ev os tr1")
      with dispatch_calls_all[of "''Error in once handler for ''" ?ev os tr1]
      have "r2 = Inr ()" and "invoked tr2 = invoked tr1 @ map handlerId os" by simp_all
      with Some regular d1 r1 d2 show ?thesis
        by (simp add: emit_def subscribed_def)
    qed
  qed
qed

lemma callHandler_console:
  "consoleErrors (snd (callHandler label ev h tr))
     = consoleErrors tr @ (if throws h ev then [label @ eventName ev @ '':''] else [])"
  by (cases "handlerRun h ev") (simp_all add: callHandler_def try_catch_def throws_def)

lemma dispatch_logs_errors:
  "consoleErrors (snd (dispatch label ev hs tr)) = consoleErrors tr @ errorLines label ev hs"
proof (induction hs arbitrary: tr)
  case Nil
  then show ?case by (simp add: errorLines_def)
next
  case (Cons h hs)
  obtain r tr' where c: "callHandler label ev h tr = (r, tr')"
    by (cases "callHandler label ev h tr")
  with callHandler_returns[of label ev h tr] callHandler_console[of label ev h tr]
  have "r = Inr ()"
    and "consoleErrors tr'
           = consoleErrors tr @ (if throws h ev then [label @ eventName ev @ '':''] else [])"
    by simp_all
  with Cons.IH[of tr'] c show ?case by (simp add: errorLines_def)
qed

lemma emit_logs_errors:
  "consoleErrors (snd (snd (emit now name d (bus, tr))))
     = consoleErrors tr
         @ errorLines ''Error in event handler for ''
             \<lparr> eventName = name, occurredAt = now, eventData = d \<rparr> (subscribed (handlers bus) name)
         @ errorLines ''Error in once handler for ''
             \<lparr> eventName = name, occurredAt = now, eventData = d \<rparr> (subscribed (onceHandlers bus) name)"
proof -
  let ?ev = "\<lparr> eventName = name, occurredAt = now, eventData = d \<rparr>"
  let ?hs = "subscribed (handlers bus) name"
  let ?os = "subscribed (onceHandlers bus) name"
  obtain r1 tr1 where d1: "dispatch ''Error in event handler for '' ?ev ?hs tr = (r1, tr1)"
    by (cases "dispatch ''Error in event handler for '' ?ev ?hs tr")
  with dispatch_calls_all[of "''Error in event handler for ''" ?ev ?hs tr]
    dispatch_logs_errors[of "''Error in event handler for ''" ?ev ?hs tr]
  have r1: "r1 = Inr ()"
    and c1: "consoleErrors tr1 = consoleErrors tr @ errorLines ''Error in event handler for '' ?ev ?hs"
    by simp_all
  obtain r2 tr2 where d2: "dispatch ''Error in once handler for '' ?ev ?os tr1 = (r2, tr2)"
    by (cases "dispatch ''Error in once handler for '' ?ev ?os tr1")
  with dispatch_calls_all[of "''Error in once handler for ''" ?ev ?os tr1]
    dispatch_logs_errors[of "''Error in once handler for ''" ?ev ?os tr1]
  have r2: "r2 = Inr ()"
    and c2: "consoleErrors tr2 = consoleErrors tr1 @ errorLines ''Error in once handler for '' ?ev ?os"
    by simp_all
  have regular_none: "handlers bus name = None \<Longrightarrow> tr1 = tr"
    using d1 by (simp add: subscribed_def)
  have once_none: "onceHandlers bus name = None \<Longrightarrow> tr2 = tr1"
    using d2 by (simp add: subscribed_def)
  show ?thesis
  proof (cases "handlers bus name")
    case None
    note regular = this
    show ?thesis
    proof (cases "onceHandlers bus name")
      case None
      with regular show ?thesis by (simp add: emit_def subscribed_def errorLines_def)
    next
      case (Some os)
      with regular d2 r2 c2 regular_none[OF regular] show ?thesis
        by (simp add: emit_def subscribed_def errorLines_def)
    qed
  next
    case (Some hs)
    note regular = this
    show ?thesis
    proof (cases "onceHandlers bus name")
      case None
      with regular d1 r1 c1 show ?thesis
        by (simp add: emit_def subscribed_def errorLines_def)
    next
      case (Some os)
      with regular d1 r1 c1 d2 r2 c2 show ?thesis
        by (simp add: emit_def subscribed_def)
    qed
  qed
qed

text \<open>
  Claim C8. Whatever handlers are registered for an event, regular and once, and
  whichever of them throw, \<open>emit\<close> resolves normally. It has awaited every regular
  handler and then every once handler, in order of registration, none skipped after a
  throw: the console holds one error line for each handler whose run threw, in that
  order, and no other new line. The once handlers of the event are removed.
\<close>

theorem C8_emit_never_throws:
  "fst (emit now name d (bus, tr)) = Inr ()
   \<and> invoked (snd (snd (emit now name d (bus, tr))))
       = invoked tr @ map handlerId (subscribed (handlers bus) name)
           @ map handlerId (subscribed (onceHandlers bus) name)
   \<and> consoleErrors (snd (snd (emit now name d (bus, tr))))
       = consoleErrors tr
           @ errorLines ''Error in event handler for ''
               \<lparr> eventName = name, occurredAt = now, eventData = d \<rparr>
               (subscribed (handlers bus) name)
           @ errorLines ''Error in once handler for ''
               \<lparr> eventName = name, occurredAt = now, eventData = d \<rparr>
               (subscribed (onceHandlers bus) name)
   \<and> onceHandlers (fst (snd (emit now name d (bus, tr)))) name = None"
  using emit_calls_all[of now name d bus tr] emit_logs_errors[of now name d bus tr]
  by simp

theorem C8_emit_never_throws_witness:
  "fst (emit 0 ''test.event'' () (testBus, emptyTrace)) = Inr ()
   \<and> invoked (snd (snd (emit 0 ''test.event'' () (testBus, emptyTrace)))) = [1, 2, 3]
   \<and> consoleErrors (snd (snd (emit 0 ''test.event'' () (testBus, emptyTrace))))
       = [''Error in event handler for test.event:'', ''Error in once handler for test.event:'']
   \<and> onceHandlers (fst (snd (emit 0 ''test.event'' () (testBus, emptyTrace)))) ''test.event'' = None"
proof -
  have regular: "subscribed (handlers testBus) ''test.event'' = [errorHandler 1, successHandler 2]"
    by (simp add: subscribed_def testBus_def on_def once_def newEventBus_def addHandler_def
        errorHandler_def successHandler_def)
  have onces: "subscribed (onceHandlers testBus) ''test.event'' = [errorHandler 3]"
    by (simp add: subscribed_def testBus_def on_def once_def newEventBus_def addHandler_def)
  from C8_emit_never_throws[of 0 "''test.event''" "()" testBus emptyTrace] regular onces
  show ?thesis
    by (simp add: emptyTrace_def errorHandler_def successHandler_def errorLines_def throws_def)
qed

section \<open>Schedule use case: the result built after a miss\<close>

lemma emit_returns: "fst (emit now name d w) = Inr ()"
  using emit_calls_all[of now name d "fst w" "snd w"] by simp

lemma emitEvent_returns: "fst (emitEvent now name d w) = Inr ()"
  using emit_returns[of now name d "(eventBus w, busTrace w)"]
  by (auto simp: emitEvent_def split: prod.splits)

text \<open>
  The use case finds no usable hit when the key is absent, when the entry has expired,
  or when the cached result is stale.
\<close>

lemma usableHit_none_iff:
  "usableHit clk params w = None \<longleftrightarrow>
     (case cacheService w (scheduleCacheKey params) of
        None \<Rightarrow> True
      | Some entry \<Rightarrow> of_int (t_get clk) > expiresAt entry
                      \<or> scheduleShouldRefreshCache (t_stale clk) (entry_value entry))"
  by (simp add: usableHit_def cache_get_def split: option.splits)











section \<open>Game details use case: a game that is not found\<close>

lemma details_hit_has_game:
  "detailsUsableHit clk params w = Some cached \<Longrightarrow> game cached \<noteq> None"
  by (auto simp: detailsUsableHit_def split: option.splits if_splits)

lemma details_from_cache_has_game:
  assumes "fst (detailsExecute clk repo params w) = Inr r" and "details_fromCache r"
  shows "game r \<noteq> None"
proof (cases "detailsUsableHit clk params w")
  case None
  with assms show ?thesis
    by (auto simp: detailsExecute_def Let_def split: sum.splits option.splits prod.splits)
next
  case (Some cached)
  from details_hit_has_game[OF Some] Some assms show ?thesis
    by (auto simp: detailsExecute_def Let_def split: sum.splits prod.splits)
qed

text \<open>
  Claim C10, as the code has it. When the cache gives no usable hit and \<open>findById\<close>
  returns null, \<open>execute\<close> returns \<open>game = null\<close> with \<open>fromCache = false\<close>; it calls
  neither \<open>cache.set\<close> nor \<open>emit\<close>. The cache is as the initial \<open>cache.get\<close> left
  it: every other key is untouched, and the whole cache is unchanged unless an expired
  entry was stored under the game's key, which that \<open>get\<close> removes. Moreover a cached
  result whose game is null is not a usable hit, and every result that comes back with
  \<open>fromCache = true\<close> has a game.
\<close>

theorem C10_game_not_found:
  "(detailsUsableHit clk params w = None \<and> findById repo (gameId params) = Inr None
      \<longrightarrow> fst (detailsExecute clk repo params w)
            = Inr \<lparr> game = None, details_fromCache = False,
                    details_metadata = \<lparr> details_cachedAt = t_build clk \<rparr> \<rparr>
          \<and> cacheService (snd (detailsExecute clk repo params w))
              = snd (cache_get (t_get clk) (detailsCacheKey (gameId params)) (cacheService w))
          \<and> (k \<noteq> detailsCacheKey (gameId params)
                \<longrightarrow> cacheService (snd (detailsExecute clk repo params w)) k = cacheService w k)
          \<and> ((case cacheService w (detailsCacheKey (gameId params)) of
                 None \<Rightarrow> True | Some entry \<Rightarrow> of_int (t_get clk) \<le> expiresAt entry)
                \<longrightarrow> cacheService (snd (detailsExecute clk repo params w)) = cacheService w)
          \<and> emitted (snd (detailsExecute clk repo params w)) = emitted w
          \<and> eventBus (snd (detailsExecute clk repo params w)) = eventBus w
          \<and> busTrace (snd (detailsExecute clk repo params w)) = busTrace w)
   \<and> (fst (cache_get (t_get clk) (detailsCacheKey (gameId params)) (cacheService w)) = Some cached
        \<and> game cached = None
      \<longrightarrow> detailsUsableHit clk params w = None)
   \<and> (fst (detailsExecute clk repo params w) = Inr r \<and> details_fromCache r
      \<longrightarrow> game r \<noteq> None)"
proof -
  have not_found: "detailsUsableHit clk params w = None
      \<Longrightarrow> findById repo (gameId params) = Inr None
      \<Longrightarrow> detailsExecute clk repo params w
            = (Inr \<lparr> game = None, details_fromCache = False,
                     details_metadata = \<lparr> details_cachedAt = t_build clk \<rparr> \<rparr>,
               w\<lparr> cacheService :=
                    snd (cache_get (t_get clk) (detailsCacheKey (gameId params)) (cacheService w)) \<rparr>)"
    by (simp add: detailsExecute_def Let_def)
  have other_keys: "k \<noteq> detailsCacheKey (gameId params)
      \<Longrightarrow> snd (cache_get (t_get clk) (detailsCacheKey (gameId params)) (cacheService w)) k
            = cacheService w k"
    by (simp add: cache_get_def split: option.splits)
  have no_eviction: "(case cacheService w (detailsCacheKey (gameId params)) of
        None \<Rightarrow> True | Some entry \<Rightarrow> of_int (t_get clk) \<le> expiresAt entry)
      \<Longrightarrow> snd (cache_get (t_get clk) (detailsCacheKey (gameId params)) (cacheService w))
            = cacheService w"
    by (simp add: cache_get_def split: option.splits)
  have null_entry: "fst (cache_get (t_get clk) (detailsCacheKey (gameId params)) (cacheService w))
        = Some cached \<Longrightarrow> game cached = None \<Longrightarrow> detailsUsableHit clk params w = None"
    by (simp add: detailsUsableHit_def)
  show ?thesis
    using not_found other_keys no_eviction null_entry
      details_from_cache_has_game[of clk repo params w r]
    by simp
qed

theorem C10_game_not_found_witness:
  "detailsUsableHit firstCallClock \<lparr> gameId = ''999'' \<rparr> liveGameCached = None
   \<and> findById fourGamesRepo (gameId \<lparr> gameId = ''999'' \<rparr>) = Inr None
   \<and> fst (detailsExecute firstCallClock fourGamesRepo \<lparr> gameId = ''999'' \<rparr> liveGameCached)
       = Inr \<lparr> game = None, details_fromCache = False,
               details_metadata = \<lparr> details_cachedAt = 105 \<rparr> \<rparr>
   \<and> cacheService (snd (detailsExecute firstCallClock fourGamesRepo \<lparr> gameId = ''999'' \<rparr> liveGameCached))
       = cacheService liveGameCached
   \<and> emitted (snd (detailsExecute firstCallClock fourGamesRepo \<lparr> gameId = ''999'' \<rparr> liveGameCached)) = []
   \<and> fst (cache_get 100 (detailsCacheKey ''999'') (cacheService nullGameCached))
       = Some \<lparr> game = None, details_fromCache = False,
                details_metadata = \<lparr> details_cachedAt = 0 \<rparr> \<rparr>
   \<and> detailsUsableHit firstCallClock \<lparr> gameId = ''999'' \<rparr> nullGameCached = None
   \<and> fst (detailsExecute firstCallClock fourGamesRepo \<lparr> gameId = ''404'' \<rparr> liveGameCached)
       = Inr \<lparr> game = Some gameLive, details_fromCache = True,
               details_metadata = \<lparr> details_cachedAt = 0 \<rparr> \<rparr>
   \<and> game \<lparr> game = Some gameLive, details_fromCache = True,
             details_metadata = \<lparr> details_cachedAt = 0 \<rparr> \<rparr> \<noteq> None"
proof -
  let ?hit = "\<lparr> game = Some gameLive, details_fromCache = False,
               details_metadata = \<lparr> details_cachedAt = 0 \<rparr> \<rparr>"
  let ?served = "\<lparr> game = Some gameLive, details_fromCache = True,
               details_metadata = \<lparr> details_cachedAt = 0 \<rparr> \<rparr>"
  let ?null = "\<lparr> game = None, details_fromCache = False,
               details_metadata = \<lparr> details_cachedAt = 0 \<rparr> \<rparr>"
  let ?p999 = "\<lparr> gameId = ''999'' \<rparr>"
  let ?p404 = "\<lparr> gameId = ''404'' \<rparr>"
  have miss: "detailsUsableHit firstCallClock ?p999 liveGameCached = None"
    by (simp add: detailsUsableHit_def liveGameCached_def cache_get_def cache_set_def
        detailsCacheKey_def)
  have absent: "findById fourGamesRepo (gameId ?p999) = Inr None"
    by (simp add: fourGamesRepo_def)
  have nothing_stored:
    "(case cacheService liveGameCached (detailsCacheKey (gameId ?p999)) of
        None \<Rightarrow> True | Some entry \<Rightarrow> of_int (t_get firstCallClock) \<le> expiresAt entry)"
    by (simp add: liveGameCached_def cache_set_def detailsCacheKey_def)
  have build: "t_build firstCallClock = 105" and tget: "t_get firstCallClock = 100"
    and log: "emitted liveGameCached = []"
    by (simp_all add: firstCallClock_def liveGameCached_def)
  have null_cached: "fst (cache_get 100 (detailsCacheKey ''999'') (cacheService nullGameCached))
      = Some ?null"
    by (simp add: nullGameCached_def cache_get_def cache_set_def)
  have hit: "detailsUsableHit firstCallClock ?p404 liveGameCached = Some ?hit"
    by (simp add: detailsUsableHit_def liveGameCached_def cache_get_def cache_set_def
        detailsCacheKey_def firstCallClock_def detailsShouldRefreshCache_def
        detailsCalculateCacheTTL_def game_facts Let_def)
  let ?w1 = "liveGameCached\<lparr> cacheService :=
        snd (cache_get (t_get firstCallClock) (detailsCacheKey (gameId ?p404))
               (cacheService liveGameCached)) \<rparr>"
  obtain r' w' where e: "emitEvent (t_emit firstCallClock) ''game-details.cache-hit''
        (GameDetailsCacheHit (gameId ?p404) (details_cachedAt (details_metadata ?hit))) ?w1 = (r', w')"
    by (cases "emitEvent (t_emit firstCallClock) ''game-details.cache-hit''
        (GameDetailsCacheHit (gameId ?p404) (details_cachedAt (details_metadata ?hit))) ?w1")
  with emitEvent_returns[of "t_emit firstCallClock" "''game-details.cache-hit''"
      "GameDetailsCacheHit (gameId ?p404) (details_cachedAt (details_metadata ?hit))" ?w1]
  have r': "r' = Inr ()" by simp
  have served: "fst (detailsExecute firstCallClock fourGamesRepo ?p404 liveGameCached) = Inr ?served"
    using hit e r' by (simp add: detailsExecute_def Let_def)
  note found = C10_game_not_found[of firstCallClock ?p999 liveGameCached fourGamesRepo
      "''game:404''" ?null ?served, THEN conjunct1, THEN mp, OF conjI[OF miss absent]]
  note unchanged = found[THEN conjunct2, THEN conjunct2, THEN conjunct2, THEN conjunct1,
      THEN mp, OF nothing_stored]
  note null_no_hit = C10_game_not_found[of firstCallClock ?p999 nullGameCached fourGamesRepo
      "''game:404''" ?null ?served, THEN conjunct2, THEN conjunct1, THEN mp]
  have no_hit: "detailsUsableHit firstCallClock ?p999 nullGameCached = None"
    using null_no_hit null_cached tget by simp
  have has_game: "game ?served \<noteq> None"
    by (rule C10_game_not_found[of firstCallClock ?p404 liveGameCached fourGamesRepo
      "''game:999''" ?null ?served, THEN conjunct2, THEN conjunct2, THEN mp])
       (simp add: served)
  from miss absent found unchanged no_hit null_cached served has_game build log
  show ?thesis by simp
qed

text \<open>
  The cache does change when an expired entry sits under the game's key: the entry of
  game 404, stored while live, has expired at reading 20000; the game is no longer found,
  and the call leaves the cache without the entry.
\<close>

theorem C10_expired_entry_is_evicted:
  "findById fourGamesRepo (gameId \<lparr> gameId = ''404'' \<rparr>) = Inr None
   \<and> fst (detailsExecute laterCallClock fourGamesRepo \<lparr> gameId = ''404'' \<rparr> liveGameCached)
       = Inr \<lparr> game = None, details_fromCache = False,
               details_metadata = \<lparr> details_cachedAt = 20005 \<rparr> \<rparr>
   \<and> cacheService liveGameCached ''game:404'' \<noteq> None
   \<and> cacheService (snd (detailsExecute laterCallClock fourGamesRepo \<lparr> gameId = ''404'' \<rparr> liveGameCached))
        ''game:404'' = None"
  by (simp add: detailsExecute_def detailsUsableHit_def liveGameCached_def cache_get_def
      cache_set_def detailsCacheKey_def laterCallClock_def detailsCalculateCacheTTL_def
      fourGamesRepo_def game_facts Let_def)

end
